theory Spec2Isabelle
  imports
    Complex_Main
    "HOL-Library.Char_ord"
    "HOL-Library.List_Lexorder"
    "HOL-Library.AList"
    "HOL-Library.Multiset"
begin

section \<open>Python values\<close>

text \<open>
  Exceptions are values: a Python function that may raise returns \<open>exn + 'a\<close>, with
  \<open>Inl\<close> the raised exception. \<open>Exception msg\<close> is the plain \<open>Exception\<close> the
  source raises itself with a message.
\<close>

datatype exn =
    ZeroDivisionError
  | IndexError
  | KeyError
  | TypeError
  | AttributeError
  | ValueError
  | OverflowError
  | RequestException
  | JSONDecodeError
  | OSError
  | Exception string

text \<open>Sequencing of statements that may raise: the first exception ends the block.\<close>

definition and_then :: "exn + 'a \<Rightarrow> ('a \<Rightarrow> exn + 'b) \<Rightarrow> exn + 'b" where
  "and_then m f = (case m of Inl e \<Rightarrow> Inl e | Inr x \<Rightarrow> f x)"

subsection \<open>Numbers\<close>

text \<open>
  A Python number. Finite values are exact reals; the two infinities and NaN are the
  special floats, which the source produces itself (\<open>float('inf')\<close>). Python's
  \<open>int\<close> and \<open>float\<close> are not told apart, and binary64 rounding error, overflow of
  a finite operation and the sign of zero are outside the model.
\<close>

datatype pyfloat = Fin real | PInf | NInf | NaN

text \<open>Python's \<open>==\<close> and \<open>!=\<close> on floats: NaN equals nothing, itself included.\<close>

definition float_eq :: "pyfloat \<Rightarrow> pyfloat \<Rightarrow> bool" where
  "float_eq x y = (x \<noteq> NaN \<and> y \<noteq> NaN \<and> x = y)"

definition float_ne :: "pyfloat \<Rightarrow> pyfloat \<Rightarrow> bool" where
  "float_ne x y = (\<not> float_eq x y)"

text \<open>\<open>math.isinf\<close>: the value is one of the two infinite floats.\<close>

definition is_infinite :: "pyfloat \<Rightarrow> bool" where
  "is_infinite x = (x = PInf \<or> x = NInf)"

fun float_neg :: "pyfloat \<Rightarrow> pyfloat" where
  "float_neg (Fin a) = Fin (- a)"
| "float_neg PInf = NInf"
| "float_neg NInf = PInf"
| "float_neg NaN = NaN"

fun float_add :: "pyfloat \<Rightarrow> pyfloat \<Rightarrow> pyfloat" where
  "float_add (Fin a) (Fin b) = Fin (a + b)"
| "float_add (Fin a) PInf = PInf"
| "float_add (Fin a) NInf = NInf"
| "float_add PInf (Fin b) = PInf"
| "float_add PInf PInf = PInf"
| "float_add PInf NInf = NaN"
| "float_add NInf (Fin b) = NInf"
| "float_add NInf PInf = NaN"
| "float_add NInf NInf = NInf"
| "float_add NaN y = NaN"
| "float_add x NaN = NaN"

definition float_sub :: "pyfloat \<Rightarrow> pyfloat \<Rightarrow> pyfloat" where
  "float_sub x y = float_add x (float_neg y)"

text \<open>An infinity times a finite factor: the sign follows the factor, and zero gives NaN.\<close>

definition inf_times :: "bool \<Rightarrow> real \<Rightarrow> pyfloat" where
  "inf_times positive a =
     (if a = 0 then NaN else if (0 < a) = positive then PInf else NInf)"

fun float_mul :: "pyfloat \<Rightarrow> pyfloat \<Rightarrow> pyfloat" where
  "float_mul (Fin a) (Fin b) = Fin (a * b)"
| "float_mul (Fin a) PInf = inf_times True a"
| "float_mul (Fin a) NInf = inf_times False a"
| "float_mul PInf (Fin b) = inf_times True b"
| "float_mul NInf (Fin b) = inf_times False b"
| "float_mul PInf PInf = PInf"
| "float_mul PInf NInf = NInf"
| "float_mul NInf PInf = NInf"
| "float_mul NInf NInf = PInf"
| "float_mul NaN y = NaN"
| "float_mul x NaN = NaN"

text \<open>
  Python's \<open>/\<close>: a zero divisor raises \<open>ZeroDivisionError\<close> whatever the dividend is;
  otherwise the IEEE table.
\<close>

fun float_div_nonzero :: "pyfloat \<Rightarrow> pyfloat \<Rightarrow> pyfloat" where
  "float_div_nonzero (Fin a) (Fin b) = Fin (a / b)"
| "float_div_nonzero (Fin a) PInf = Fin 0"
| "float_div_nonzero (Fin a) NInf = Fin 0"
| "float_div_nonzero PInf (Fin b) = (if 0 < b then PInf else NInf)"
| "float_div_nonzero NInf (Fin b) = (if 0 < b then NInf else PInf)"
| "float_div_nonzero PInf PInf = NaN"
| "float_div_nonzero PInf NInf = NaN"
| "float_div_nonzero NInf PInf = NaN"
| "float_div_nonzero NInf NInf = NaN"
| "float_div_nonzero NaN y = NaN"
| "float_div_nonzero x NaN = NaN"

definition float_div :: "pyfloat \<Rightarrow> pyfloat \<Rightarrow> exn + pyfloat" where
  "float_div x y =
     (if y = Fin 0 then Inl ZeroDivisionError else Inr (float_div_nonzero x y))"

text \<open>
  \<open>round(x, ndigits)\<close>: to the nearest multiple of \<open>10 ^ -ndigits\<close>, a tie going to
  the even one; infinities and NaN round to themselves.
\<close>

definition round_half_even :: "real \<Rightarrow> int" where
  "round_half_even r =
     (let f = \<lfloor>r\<rfloor>; d = r - of_int f
      in if d < 1 / 2 then f else if 1 / 2 < d then f + 1
         else if even f then f else f + 1)"

fun py_round :: "pyfloat \<Rightarrow> nat \<Rightarrow> pyfloat" where
  "py_round (Fin a) ndigits = Fin (of_int (round_half_even (a * 10 ^ ndigits)) / 10 ^ ndigits)"
| "py_round PInf ndigits = PInf"
| "py_round NInf ndigits = NInf"
| "py_round NaN ndigits = NaN"

text \<open>\<open>sum(xs)\<close>: the running total starts at 0 and adds from the left.\<close>

definition py_sum :: "pyfloat list \<Rightarrow> pyfloat" where
  "py_sum xs = foldl float_add (Fin 0) xs"

subsection \<open>Lists and dictionaries\<close>

text \<open>\<open>xs[i]\<close>: a negative index counts from the end, and an index out of range raises.\<close>

definition list_getitem :: "'a list \<Rightarrow> int \<Rightarrow> exn + 'a" where
  "list_getitem xs i =
     (if 0 \<le> i \<and> i < int (length xs) then Inr (xs ! nat i)
      else if i < 0 \<and> - int (length xs) \<le> i then Inr (xs ! nat (int (length xs) + i))
      else Inl IndexError)"

text \<open>
  A dictionary with string keys is an association list in insertion order. \<open>d[k]\<close>
  raises \<open>KeyError\<close> on a missing key, \<open>d.get(k, default)\<close> returns the default, and
  \<open>d[k] = v\<close> is \<open>AList.update\<close>: it replaces the value of a present key in place and
  appends a new key at the end.
\<close>

type_synonym 'v dict = "(string \<times> 'v) list"

definition dict_getitem :: "'v dict \<Rightarrow> string \<Rightarrow> exn + 'v" where
  "dict_getitem d k = (case map_of d k of None \<Rightarrow> Inl KeyError | Some v \<Rightarrow> Inr v)"

definition dict_get :: "'v dict \<Rightarrow> string \<Rightarrow> 'v \<Rightarrow> 'v" where
  "dict_get d k dflt = (case map_of d k of None \<Rightarrow> dflt | Some v \<Rightarrow> v)"

subsection \<open>Parsed JSON\<close>

text \<open>
  What \<open>json.load\<close> and \<open>response.json()\<close> return: any JSON value. A number
  written without fraction or exponent is an \<open>int\<close> (\<open>JInt\<close>), any other number a
  \<open>float\<close> (\<open>JNum\<close>). An object keeps its keys in document order.
\<close>

datatype json =
    JNull
  | JBool bool
  | JInt int
  | JNum pyfloat
  | JStr string
  | JArr "json list"
  | JObj "(string \<times> json) list"

text \<open>Truth value of a Python object, as \<open>if\<close> and \<open>and\<close> take it.\<close>

fun truthy :: "json \<Rightarrow> bool" where
  "truthy JNull = False"
| "truthy (JBool b) = b"
| "truthy (JInt i) = (i \<noteq> 0)"
| "truthy (JNum x) = float_ne x (Fin 0)"
| "truthy (JStr s) = (s \<noteq> [])"
| "truthy (JArr xs) = (xs \<noteq> [])"
| "truthy (JObj kvs) = (kvs \<noteq> [])"

text \<open>\<open>x.get(k, default)\<close>: only a dictionary has the method.\<close>

fun json_get :: "json \<Rightarrow> string \<Rightarrow> json \<Rightarrow> exn + json" where
  "json_get (JObj kvs) k dflt = Inr (dict_get kvs k dflt)"
| "json_get x k dflt = Inl AttributeError"

text \<open>\<open>x[k]\<close> with a string \<open>k\<close>: a list or a string wants an integer index.\<close>

fun json_getitem :: "json \<Rightarrow> string \<Rightarrow> exn + json" where
  "json_getitem (JObj kvs) k = dict_getitem kvs k"
| "json_getitem x k = Inl TypeError"

text \<open>\<open>x.items()\<close>.\<close>

fun json_items :: "json \<Rightarrow> exn + json dict" where
  "json_items (JObj kvs) = Inr kvs"
| "json_items x = Inl AttributeError"

fun is_substring :: "string \<Rightarrow> string \<Rightarrow> bool" where
  "is_substring sub [] = (sub = [])"
| "is_substring sub (c # cs) = (take (length sub) (c # cs) = sub \<or> is_substring sub cs)"

text \<open>
  \<open>k in x\<close> with a string \<open>k\<close>: a key of a dictionary, an element of a list, a
  substring of a string; \<open>None\<close>, a boolean and a number are not iterable.
\<close>

fun json_contains :: "string \<Rightarrow> json \<Rightarrow> exn + bool" where
  "json_contains k (JObj kvs) = Inr (map_of kvs k \<noteq> None)"
| "json_contains k (JArr xs) = Inr (JStr k \<in> set xs)"
| "json_contains k (JStr s) = Inr (is_substring k s)"
| "json_contains k x = Inl TypeError"

subsection \<open>Dates\<close>

text \<open>
  A \<open>datetime\<close> parsed with the format \<open>'%Y-%m-%d'\<close> has midnight as its time, so
  only the calendar date is kept. Comparison is by year, then month, then day.
\<close>

datatype datetime = Datetime (year: nat) (month: nat) (day: nat)

definition dt_le :: "datetime \<Rightarrow> datetime \<Rightarrow> bool" where
  "dt_le a b =
     (year a < year b \<or>
      (year a = year b \<and> (month a < month b \<or> (month a = month b \<and> day a \<le> day b))))"

definition is_leap :: "nat \<Rightarrow> bool" where
  "is_leap y = (y mod 4 = 0 \<and> (y mod 100 \<noteq> 0 \<or> y mod 400 = 0))"

definition days_in_month :: "nat \<Rightarrow> nat \<Rightarrow> nat" where
  "days_in_month y m =
     (if m = 2 then (if is_leap y then 29 else 28)
      else if m = 4 \<or> m = 6 \<or> m = 9 \<or> m = 11 then 30 else 31)"

text \<open>The dates \<open>datetime(y, m, d)\<close> accepts: years 1 to 9999.\<close>

definition valid_date :: "nat \<Rightarrow> nat \<Rightarrow> nat \<Rightarrow> bool" where
  "valid_date y m d =
     (1 \<le> y \<and> y \<le> 9999 \<and> 1 \<le> m \<and> m \<le> 12 \<and> 1 \<le> d \<and> d \<le> days_in_month y m)"

definition is_digit :: "char \<Rightarrow> bool" where
  "is_digit c = (48 \<le> (of_char c :: nat) \<and> (of_char c :: nat) \<le> 57)"

definition digit_val :: "char \<Rightarrow> nat" where
  "digit_val c = of_char c - 48"

definition digit_char :: "nat \<Rightarrow> char" where
  "digit_char n = char_of (48 + n)"

text \<open>
  \<open>datetime.strptime(s, '%Y-%m-%d')\<close>. The format is matched from the start of the
  string as the pattern \<open>\d\d\d\d-(1[0-2]|0[1-9]|[1-9])-(3[01]|[12]\d|0[1-9]|[1-9]| [1-9])\<close>,
  the alternatives tried in this order; text left over after the match, and a match
  that is no calendar date, raise \<open>ValueError\<close>. Strings are byte strings here, so
  only the ASCII digits count as digits.
\<close>

fun parse_year :: "string \<Rightarrow> (nat \<times> string) option" where
  "parse_year (a # b # c # d # rest) =
     (if is_digit a \<and> is_digit b \<and> is_digit c \<and> is_digit d
      then Some (1000 * digit_val a + 100 * digit_val b + 10 * digit_val c + digit_val d, rest)
      else None)"
| "parse_year s = None"

fun parse_month :: "string \<Rightarrow> (nat \<times> string) option" where
  "parse_month (a # b # rest) =
     (if a = CHR ''1'' \<and> is_digit b \<and> digit_val b \<le> 2 then Some (10 + digit_val b, rest)
      else if a = CHR ''0'' \<and> is_digit b \<and> 1 \<le> digit_val b then Some (digit_val b, rest)
      else if is_digit a \<and> 1 \<le> digit_val a then Some (digit_val a, b # rest)
      else None)"
| "parse_month [a] = (if is_digit a \<and> 1 \<le> digit_val a then Some (digit_val a, []) else None)"
| "parse_month [] = None"

fun parse_day :: "string \<Rightarrow> (nat \<times> string) option" where
  "parse_day (a # b # rest) =
     (if a = CHR ''3'' \<and> is_digit b \<and> digit_val b \<le> 1 then Some (30 + digit_val b, rest)
      else if (a = CHR ''1'' \<or> a = CHR ''2'') \<and> is_digit b
        then Some (10 * digit_val a + digit_val b, rest)
      else if a = CHR ''0'' \<and> is_digit b \<and> 1 \<le> digit_val b then Some (digit_val b, rest)
      else if is_digit a \<and> 1 \<le> digit_val a then Some (digit_val a, b # rest)
      else if a = CHR '' '' \<and> is_digit b \<and> 1 \<le> digit_val b then Some (digit_val b, rest)
      else None)"
| "parse_day [a] = (if is_digit a \<and> 1 \<le> digit_val a then Some (digit_val a, []) else None)"
| "parse_day [] = None"

definition strptime :: "string \<Rightarrow> exn + datetime" where
  "strptime s =
     (case parse_year s of
        Some (y, c1 # s1) \<Rightarrow>
          (if c1 \<noteq> CHR ''-'' then Inl ValueError
           else case parse_month s1 of
             Some (m, c2 # s2) \<Rightarrow>
               (if c2 \<noteq> CHR ''-'' then Inl ValueError
                else case parse_day s2 of
                  Some (d, rest) \<Rightarrow>
                    (if rest \<noteq> [] then Inl ValueError
                     else if valid_date y m d then Inr (Datetime y m d)
                     else Inl ValueError)
                | None \<Rightarrow> Inl ValueError)
           | _ \<Rightarrow> Inl ValueError)
      | _ \<Rightarrow> Inl ValueError)"

text \<open>
  \<open>dt.strftime('%Y-%m-%d')\<close>. Month and day are two digits each. The year is what
  the platform's C library prints for \<open>%Y\<close>: four digits padded with zeros on some
  platforms, the plain decimal number on others (glibc prints the year 999 as \<open>999\<close>);
  \<open>pads\<close> says which. From the year 1000 on both agree.
\<close>

definition year_chars :: "bool \<Rightarrow> nat \<Rightarrow> string" where
  "year_chars pads y =
     (if pads \<or> 1000 \<le> y
      then [digit_char (y div 1000), digit_char (y div 100 mod 10),
            digit_char (y div 10 mod 10), digit_char (y mod 10)]
      else if 100 \<le> y
      then [digit_char (y div 100), digit_char (y div 10 mod 10), digit_char (y mod 10)]
      else if 10 \<le> y then [digit_char (y div 10), digit_char (y mod 10)]
      else [digit_char y])"

definition strftime :: "bool \<Rightarrow> datetime \<Rightarrow> string" where
  "strftime pads dt =
     year_chars pads (year dt) @
     [CHR ''-'', digit_char (month dt div 10), digit_char (month dt mod 10), CHR ''-'',
      digit_char (day dt div 10), digit_char (day dt mod 10)]"

text \<open>
  \<open>dt + timedelta(days=1)\<close>: the next calendar day; past 9999-12-31 the addition
  raises \<open>OverflowError\<close>.
\<close>

definition add_day :: "datetime \<Rightarrow> exn + datetime" where
  "add_day dt =
     (if day dt < days_in_month (year dt) (month dt)
        then Inr (Datetime (year dt) (month dt) (day dt + 1))
      else if month dt < 12 then Inr (Datetime (year dt) (month dt + 1) 1)
      else if year dt < 9999 then Inr (Datetime (year dt + 1) 1 1)
      else Inl OverflowError)"

section \<open>ExchangeRateService\<close>

text \<open>
  The result dictionaries of the service (app.py, lines 59-64, 168-173 and 176): every key
  the source writes is a field, absent when the dictionary does not have it. The type of
  the base and of a day's entry is a parameter: the service stores JSON values there,
  the calculator reads a dictionary from currency code to number.
\<close>

record ('b, 'e) rates_data =
  success :: "bool option"
  historical :: "bool option"
  base :: "'b option"
  rates :: "'e dict option"
  error :: "exn option"

text \<open>
  The object itself (\<open>__init__\<close>, lines 13-16); the credential is \<open>None\<close> when the
  environment variable is not set.
\<close>

record service =
  base_url :: string
  fallback_file :: string
  api_key :: "string option"

text \<open>
  The outside world, which the service only reads. \<open>requests_get url params timeout\<close> is
  \<open>requests.get(url, params=params, timeout=timeout)\<close>: it raises, or returns a response
  with a status code and a body that \<open>response.json()\<close> parses or fails to parse.
  \<open>load_json_file path\<close> is \<open>json.load\<close> on the opened file: it raises when the file
  cannot be opened or is no JSON document. Within one call of \<open>get_rates\<close> no request is
  sent twice, so a function of the request describes every behaviour of the remote side.
  \<open>strftime_pads_year\<close> is a fact of the platform: whether its \<open>strftime\<close> pads
  the year to four digits.
\<close>

record response =
  status_code :: int
  json_body :: "exn + json"

record world =
  requests_get :: "string \<Rightarrow> string option dict \<Rightarrow> nat \<Rightarrow> exn + response"
  load_json_file :: "string \<Rightarrow> exn + json"
  strftime_pads_year :: bool

text \<open>
  The loop of lines 162-166: each key of the rate table is parsed, and the entries in
  range are inserted into the new dictionary.
\<close>

fun filter_loop :: "datetime \<Rightarrow> datetime \<Rightarrow> json dict \<Rightarrow> json dict \<Rightarrow> exn + json dict" where
  "filter_loop start end_dt [] filtered_rates = Inr filtered_rates"
| "filter_loop start end_dt ((date_str, rate_data) # rest) filtered_rates =
     and_then (strptime date_str) (\<lambda>date_obj.
       filter_loop start end_dt rest
         (if dt_le start date_obj \<and> dt_le date_obj end_dt
          then AList.update date_str rate_data filtered_rates
          else filtered_rates))"

text \<open>The \<open>try\<close> block of \<open>_load_fallback_data\<close> (lines 155-173).\<close>

definition load_fallback_data_try ::
  "service \<Rightarrow> world \<Rightarrow> string \<Rightarrow> string \<Rightarrow> exn + (json, json) rates_data" where
  "load_fallback_data_try self w start_date end_date =
     and_then (load_json_file w (fallback_file self)) (\<lambda>data.
     and_then (strptime start_date) (\<lambda>start.
     and_then (strptime end_date) (\<lambda>end_dt.
     and_then (json_getitem data ''rates'') (\<lambda>table.
     and_then (json_items table) (\<lambda>items.
     and_then (filter_loop start end_dt items []) (\<lambda>filtered_rates.
     and_then (json_get data ''base'' (JStr ''USD'')) (\<lambda>b.
       Inr \<lparr>success = Some True, historical = Some True, base = Some b,
            rates = Some filtered_rates, error = None\<rparr>)))))))"

text \<open>
  \<open>_load_fallback_data(start_date, end_date)\<close> (lines 152-176): the \<open>except\<close> clause
  turns any exception of the block into the failure dictionary, which carries the
  exception as its error description.
\<close>

definition load_fallback_data ::
  "service \<Rightarrow> world \<Rightarrow> string \<Rightarrow> string \<Rightarrow> exn + (json, json) rates_data" where
  "load_fallback_data self w start_date end_date =
     (case load_fallback_data_try self w start_date end_date of
        Inr r \<Rightarrow> Inr r
      | Inl e \<Rightarrow>
          Inr \<lparr>success = Some False, historical = None, base = None, rates = None,
               error = Some e\<rparr>)"

text \<open>The query parameters of a call to the historical endpoint (lines 77-82, 120-125).\<close>

definition historical_params :: "service \<Rightarrow> string \<Rightarrow> string \<Rightarrow> string \<Rightarrow> string option dict" where
  "historical_params self date_str from_currency to_currency =
     [(''access_key'', api_key self), (''date'', Some date_str),
      (''source'', Some from_currency), (''currencies'', Some to_currency)]"

text \<open>
  The test \<open>data.get('success', False) and 'quotes' in data\<close> of lines 51, 88 and 131.
\<close>

definition has_quotes :: "json \<Rightarrow> exn + bool" where
  "has_quotes data =
     and_then (json_get data ''success'' (JBool False)) (\<lambda>s.
       if truthy s then json_contains ''quotes'' data else Inr False)"

text \<open>
  The \<open>try\<close> block of \<open>_get_historical_rate\<close> (lines 76-100). The nested \<open>if\<close>
  statements either return the result or fall through to the \<open>raise\<close>; \<open>None\<close> is
  falling through.
\<close>

definition get_historical_rate_try ::
  "service \<Rightarrow> world \<Rightarrow> string \<Rightarrow> string \<Rightarrow> string \<Rightarrow> exn + (json, json) rates_data" where
  "get_historical_rate_try self w date_str from_currency to_currency =
     and_then (requests_get w (base_url self @ ''/historical'')
                 (historical_params self date_str from_currency to_currency) 10) (\<lambda>resp.
     and_then
       (if status_code resp = 200
        then
          and_then (json_body resp) (\<lambda>data.
          and_then (has_quotes data) (\<lambda>ok.
            if ok
            then
              and_then (json_getitem data ''quotes'') (\<lambda>quotes.
              and_then (json_contains (from_currency @ to_currency) quotes) (\<lambda>present.
                if present
                then
                  and_then (json_getitem quotes (from_currency @ to_currency)) (\<lambda>v.
                    Inr (Some \<lparr>success = Some True, historical = Some True,
                               base = Some (JStr from_currency),
                               rates = Some [(date_str, JObj [(to_currency, v)])],
                               error = None\<rparr>))
                else Inr None))
            else Inr None))
        else Inr None)
       (\<lambda>returned. case returned of
          Some r \<Rightarrow> Inr r
        | None \<Rightarrow> Inl (Exception ''No historical data available'')))"

text \<open>\<open>_get_historical_rate(date, from_currency, to_currency)\<close> (lines 73-104).\<close>

definition get_historical_rate ::
  "service \<Rightarrow> world \<Rightarrow> string \<Rightarrow> string \<Rightarrow> string \<Rightarrow> exn + (json, json) rates_data" where
  "get_historical_rate self w date_str from_currency to_currency =
     (case get_historical_rate_try self w date_str from_currency to_currency of
        Inr r \<Rightarrow> Inr r
      | Inl e \<Rightarrow> load_fallback_data self w date_str date_str)"

text \<open>
  One pass of the \<open>while\<close> loop of \<open>_get_rates_day_by_day\<close> up to the increment (lines
  116-134): the request for one date and the update of \<open>rates\<close>.
\<close>

definition day_step ::
  "service \<Rightarrow> world \<Rightarrow> string \<Rightarrow> string \<Rightarrow> string \<Rightarrow> json dict \<Rightarrow> exn + json dict" where
  "day_step self w from_currency to_currency date_str rts =
     and_then (requests_get w (base_url self @ ''/historical'')
                 (historical_params self date_str from_currency to_currency) 5) (\<lambda>resp.
       if status_code resp = 200
       then
         and_then (json_body resp) (\<lambda>data.
         and_then (has_quotes data) (\<lambda>ok.
           if ok
           then
             and_then (json_getitem data ''quotes'') (\<lambda>quotes.
             and_then (json_contains (from_currency @ to_currency) quotes) (\<lambda>present.
               if present
               then
                 and_then (json_getitem quotes (from_currency @ to_currency)) (\<lambda>v.
                   Inr (AList.update date_str (JObj [(to_currency, v)]) rts))
               else Inr rts))
           else Inr rts))
       else Inr rts)"

text \<open>The \<open>while current <= end\<close> loop (lines 115-136).\<close>

function day_loop ::
  "service \<Rightarrow> world \<Rightarrow> string \<Rightarrow> string \<Rightarrow> datetime \<Rightarrow> datetime \<Rightarrow> json dict \<Rightarrow> exn + json dict" where
  "day_loop self w from_currency to_currency current end_dt rts =
     (if dt_le current end_dt
      then
        (case day_step self w from_currency to_currency
                (strftime (strftime_pads_year w) current) rts of
           Inl e \<Rightarrow> Inl e
         | Inr rts' \<Rightarrow>
             (case add_day current of
                Inl e \<Rightarrow> Inl e
              | Inr next_day \<Rightarrow> day_loop self w from_currency to_currency next_day end_dt rts'))
      else Inr rts)"
  by pat_completeness auto
termination
  by (relation "measures
        [\<lambda>(self, w, f, t, current, end_dt, rts). year end_dt + 1 - year current,
         \<lambda>(self, w, f, t, current, end_dt, rts). 13 - month current,
         \<lambda>(self, w, f, t, current, end_dt, rts). 32 - day current]")
     (auto simp: add_day_def dt_le_def days_in_month_def split: if_splits)

text \<open>The \<open>try\<close> block of \<open>_get_rates_day_by_day\<close> (lines 109-146).\<close>

definition get_rates_day_by_day_try ::
  "service \<Rightarrow> world \<Rightarrow> string \<Rightarrow> string \<Rightarrow> string \<Rightarrow> string \<Rightarrow> exn + (json, json) rates_data" where
  "get_rates_day_by_day_try self w start_date end_date from_currency to_currency =
     and_then (strptime start_date) (\<lambda>start.
     and_then (strptime end_date) (\<lambda>end_dt.
     and_then (day_loop self w from_currency to_currency start end_dt []) (\<lambda>rts.
       if rts \<noteq> []
       then Inr \<lparr>success = Some True, historical = Some True,
                 base = Some (JStr from_currency), rates = Some rts, error = None\<rparr>
       else Inl (Exception ''No rates retrieved''))))"

text \<open>\<open>_get_rates_day_by_day(start_date, end_date, from_currency, to_currency)\<close> (lines 106-150).\<close>

definition get_rates_day_by_day ::
  "service \<Rightarrow> world \<Rightarrow> string \<Rightarrow> string \<Rightarrow> string \<Rightarrow> string \<Rightarrow> exn + (json, json) rates_data" where
  "get_rates_day_by_day self w start_date end_date from_currency to_currency =
     (case get_rates_day_by_day_try self w start_date end_date from_currency to_currency of
        Inr r \<Rightarrow> Inr r
      | Inl e \<Rightarrow> load_fallback_data self w start_date end_date)"

text \<open>The loop of lines 54-57 over the items of the \<open>quotes\<close> object.\<close>

fun timeframe_loop :: "string \<Rightarrow> string \<Rightarrow> json dict \<Rightarrow> json dict \<Rightarrow> exn + json dict" where
  "timeframe_loop from_currency to_currency [] rts = Inr rts"
| "timeframe_loop from_currency to_currency ((date_str, quote_data) # rest) rts =
     and_then (json_contains (from_currency @ to_currency) quote_data) (\<lambda>present.
       if present
       then
         and_then (json_getitem quote_data (from_currency @ to_currency)) (\<lambda>v.
           timeframe_loop from_currency to_currency rest
             (AList.update date_str (JObj [(to_currency, v)]) rts))
       else timeframe_loop from_currency to_currency rest rts)"

definition timeframe_params ::
  "service \<Rightarrow> string \<Rightarrow> string \<Rightarrow> string \<Rightarrow> string \<Rightarrow> string option dict" where
  "timeframe_params self start_date end_date from_currency to_currency =
     [(''access_key'', api_key self), (''start_date'', Some start_date),
      (''end_date'', Some end_date), (''source'', Some from_currency),
      (''currencies'', Some to_currency)]"

text \<open>
  The \<open>try\<close> block of \<open>_get_timeframe_rates\<close> (lines 38-67): the request, the return
  of line 59 when the response has quotes, and otherwise the call of line 67.
\<close>

definition get_timeframe_rates_try ::
  "service \<Rightarrow> world \<Rightarrow> string \<Rightarrow> string \<Rightarrow> string \<Rightarrow> string \<Rightarrow> exn + (json, json) rates_data" where
  "get_timeframe_rates_try self w start_date end_date from_currency to_currency =
     and_then (requests_get w (base_url self @ ''/timeframe'')
                 (timeframe_params self start_date end_date from_currency to_currency) 10) (\<lambda>resp.
     and_then
       (if status_code resp = 200
        then
          and_then (json_body resp) (\<lambda>data.
          and_then (has_quotes data) (\<lambda>ok.
            if ok
            then
              and_then (json_getitem data ''quotes'') (\<lambda>quotes.
              and_then (json_items quotes) (\<lambda>items.
              and_then (timeframe_loop from_currency to_currency items []) (\<lambda>rts.
                Inr (Some \<lparr>success = Some True, historical = Some True,
                           base = Some (JStr from_currency), rates = Some rts,
                           error = None\<rparr>))))
            else Inr None))
        else Inr None)
       (\<lambda>returned. case returned of
          Some r \<Rightarrow> Inr r
        | None \<Rightarrow> get_rates_day_by_day self w start_date end_date from_currency to_currency))"

text \<open>\<open>_get_timeframe_rates(start_date, end_date, from_currency, to_currency)\<close> (lines 34-71).\<close>

definition get_timeframe_rates ::
  "service \<Rightarrow> world \<Rightarrow> string \<Rightarrow> string \<Rightarrow> string \<Rightarrow> string \<Rightarrow> exn + (json, json) rates_data" where
  "get_timeframe_rates self w start_date end_date from_currency to_currency =
     (case get_timeframe_rates_try self w start_date end_date from_currency to_currency of
        Inr r \<Rightarrow> Inr r
      | Inl e \<Rightarrow> get_rates_day_by_day self w start_date end_date from_currency to_currency)"

text \<open>\<open>get_rates(start_date, end_date, from_currency, to_currency)\<close> (lines 18-32).\<close>

definition get_rates ::
  "service \<Rightarrow> world \<Rightarrow> string \<Rightarrow> string \<Rightarrow> string \<Rightarrow> string \<Rightarrow> exn + (json, json) rates_data" where
  "get_rates self w start_date end_date from_currency to_currency =
     (case (if start_date \<noteq> end_date
            then get_timeframe_rates self w start_date end_date from_currency to_currency
            else get_historical_rate self w start_date from_currency to_currency) of
        Inr r \<Rightarrow> Inr r
      | Inl e \<Rightarrow> load_fallback_data self w start_date end_date)"

section \<open>FinanceCalculator\<close>

text \<open>
  The calculator on an input of the type its data model describes, each day's entry a
  dictionary from currency codes to floats, in the exact arithmetic of \<open>pyfloat\<close>.
  The next section embeds it on every value \<open>get_rates\<close> can hand to it, with
  Python's two number types and with rounding.

  \<open>calculate_percentage_change(old_value, new_value)\<close> (app.py, lines 180-185).
\<close>

definition calculate_percentage_change :: "pyfloat \<Rightarrow> pyfloat \<Rightarrow> exn + pyfloat" where
  "calculate_percentage_change old_value new_value =
     (if float_eq old_value (Fin 0)
      then Inr (if float_eq new_value (Fin 0) then Fin 0 else PInf)
      else and_then (float_div (float_sub new_value old_value) old_value)
             (\<lambda>q. Inr (float_mul q (Fin 100))))"

text \<open>
  A percentage in the output is the rounded number or the string \<open>'N/A'\<close>: the source
  writes \<open>round(p, 2) if p != float('inf') else 'N/A'\<close> at lines 218 and 231.
\<close>

datatype 'n pct_value = Pct 'n | NotAvailable

definition pct_field :: "pyfloat \<Rightarrow> pyfloat pct_value" where
  "pct_field p = (if float_ne p PInf then Pct (py_round p 2) else NotAvailable)"

record 'n daily_stat =
  date :: string
  rate :: 'n
  pct_change :: "'n pct_value"

record 'n totals =
  start_rate :: 'n
  end_rate :: 'n
  total_pct_change :: "'n pct_value"
  mean_rate :: 'n

text \<open>
  What \<open>process_rates_data\<close> returns: \<open>{'error': msg}\<close>, or \<open>{'totals': ...}\<close> with
  the key \<open>'breakdown'\<close> present or not.
\<close>

datatype 'n stats_output = ErrorOutput string | StatsOutput "'n totals" "'n daily_stat list option"

text \<open>
  The loop of lines 204-219 over \<open>enumerate(sorted_dates)\<close>, with the index \<open>i\<close> and
  the two lists it appends to.
\<close>

fun daily_loop ::
  "(string \<times> pyfloat) list dict \<Rightarrow> string \<Rightarrow> nat \<Rightarrow> string list \<Rightarrow> pyfloat list \<Rightarrow>
    pyfloat daily_stat list \<Rightarrow> exn + (pyfloat list \<times> pyfloat daily_stat list)" where
  "daily_loop rts to_currency i [] rate_values daily_data = Inr (rate_values, daily_data)"
| "daily_loop rts to_currency i (d # rest) rate_values daily_data =
     and_then (dict_getitem rts d) (\<lambda>entry.
       let r = dict_get entry to_currency (Fin 0);
           rate_values' = rate_values @ [r]
       in and_then
            (if 0 < i
             then and_then (list_getitem rate_values' (int i - 1))
                    (\<lambda>prev_rate. calculate_percentage_change prev_rate r)
             else Inr (Fin 0))
            (\<lambda>p. daily_loop rts to_currency (i + 1) rest rate_values'
                    (daily_data @ [\<lparr>date = d, rate = py_round r 5, pct_change = pct_field p\<rparr>])))"

text \<open>\<open>process_rates_data(rates_data, to_currency, breakdown)\<close> (app.py, lines 188-239).\<close>

definition process_rates_data ::
  "('b, (string \<times> pyfloat) list) rates_data \<Rightarrow> string \<Rightarrow> string \<Rightarrow>
    exn + pyfloat stats_output" where
  "process_rates_data rd to_currency breakdown =
     (if \<not> (case success rd of None \<Rightarrow> False | Some b \<Rightarrow> b)
      then Inr (ErrorOutput ''Failed to retrieve rates data'')
      else
        let rts = (case rates rd of None \<Rightarrow> [] | Some r \<Rightarrow> r) in
        if rts = [] then Inr (ErrorOutput ''No rates data available'')
        else
          let sorted_dates = sort (map fst rts) in
          and_then (daily_loop rts to_currency 0 sorted_dates [] []) (\<lambda>(rate_values, daily_data).
          and_then (if rate_values \<noteq> [] then list_getitem rate_values 0 else Inr (Fin 0)) (\<lambda>start_r.
          and_then (if rate_values \<noteq> [] then list_getitem rate_values (- 1) else Inr (Fin 0)) (\<lambda>end_r.
          and_then (calculate_percentage_change start_r end_r) (\<lambda>total.
          and_then (if rate_values \<noteq> []
                    then float_div (py_sum rate_values) (Fin (real (length rate_values)))
                    else Inr (Fin 0)) (\<lambda>mean.
            Inr (StatsOutput
                  \<lparr>start_rate = py_round start_r 5,
                   end_rate = py_round end_r 5,
                   total_pct_change = pct_field total,
                   mean_rate = py_round mean 5\<rparr>
                  (if breakdown = ''day'' then Some daily_data else None))))))))"

section \<open>FinanceCalculator on what the service returns\<close>

text \<open>
  The model of the calculator above takes a rate dictionary whose entries are dictionaries
  of numbers, and computes with exact reals. The running \<open>process_rates_data\<close> is called
  with the dictionary \<open>get_rates\<close> returned (app.py, line 297), whose day entries and
  rates are parsed JSON of any kind, and Python computes with two number types. This
  section embeds the calculator once more, with both: a value is a JSON value, a method
  or an operation that a value does not have raises \<open>AttributeError\<close> or
  \<open>TypeError\<close>, an \<open>int\<close> is exact and unbounded, and the result of a float
  operation is rounded to a float. The rounding belongs to the floating-point unit, not
  to the program, and is the parameter \<open>rnd\<close>: \<open>rnd x\<close> is the float nearest to the
  real \<open>x\<close>, or an infinity when \<open>x\<close> is out of the range of floats. With
  \<open>rnd = Fin\<close> nothing is rounded, which is the arithmetic of the model above.
\<close>

datatype pynum = PInt int | PFloat pyfloat

text \<open>The rounded result of a float operation, given its exact result.\<close>

fun round_float :: "(real \<Rightarrow> pyfloat) \<Rightarrow> pyfloat \<Rightarrow> pyfloat" where
  "round_float rnd (Fin r) = rnd r"
| "round_float rnd PInf = PInf"
| "round_float rnd NInf = NInf"
| "round_float rnd NaN = NaN"

text \<open>
  An operand as a float, the way a mixed operation converts it: an \<open>int\<close> too large
  for a float raises \<open>OverflowError\<close>.
\<close>

fun to_float :: "(real \<Rightarrow> pyfloat) \<Rightarrow> pynum \<Rightarrow> exn + pyfloat" where
  "to_float rnd (PFloat f) = Inr f"
| "to_float rnd (PInt i) =
     (case rnd (of_int i) of
        Fin r \<Rightarrow> Inr (Fin r)
      | PInf \<Rightarrow> Inl OverflowError
      | NInf \<Rightarrow> Inl OverflowError
      | NaN \<Rightarrow> Inl OverflowError)"

text \<open>\<open>x == 0\<close> on numbers: an \<open>int\<close> and a float compare by value.\<close>

fun num_is_zero :: "pynum \<Rightarrow> bool" where
  "num_is_zero (PInt i) = (i = 0)"
| "num_is_zero (PFloat f) = float_eq f (Fin 0)"

text \<open>\<open>x != float('inf')\<close> on numbers.\<close>

fun num_ne_inf :: "pynum \<Rightarrow> bool" where
  "num_ne_inf (PInt i) = True"
| "num_ne_inf (PFloat f) = float_ne f PInf"

text \<open>
  \<open>x + y\<close>, \<open>x - y\<close> and \<open>x * y\<close>: exact on two \<open>int\<close>s; otherwise both operands
  are converted and the float result is rounded.
\<close>

fun num_add :: "(real \<Rightarrow> pyfloat) \<Rightarrow> pynum \<Rightarrow> pynum \<Rightarrow> exn + pynum" where
  "num_add rnd (PInt a) (PInt b) = Inr (PInt (a + b))"
| "num_add rnd x y =
     and_then (to_float rnd x) (\<lambda>a. and_then (to_float rnd y) (\<lambda>b.
       Inr (PFloat (round_float rnd (float_add a b)))))"

fun num_sub :: "(real \<Rightarrow> pyfloat) \<Rightarrow> pynum \<Rightarrow> pynum \<Rightarrow> exn + pynum" where
  "num_sub rnd (PInt a) (PInt b) = Inr (PInt (a - b))"
| "num_sub rnd x y =
     and_then (to_float rnd x) (\<lambda>a. and_then (to_float rnd y) (\<lambda>b.
       Inr (PFloat (round_float rnd (float_sub a b)))))"

fun num_mul :: "(real \<Rightarrow> pyfloat) \<Rightarrow> pynum \<Rightarrow> pynum \<Rightarrow> exn + pynum" where
  "num_mul rnd (PInt a) (PInt b) = Inr (PInt (a * b))"
| "num_mul rnd x y =
     and_then (to_float rnd x) (\<lambda>a. and_then (to_float rnd y) (\<lambda>b.
       Inr (PFloat (round_float rnd (float_mul a b)))))"

text \<open>
  \<open>x / y\<close>. Two \<open>int\<close>s give the float nearest to the exact quotient, and raise
  \<open>ZeroDivisionError\<close> on a zero divisor and \<open>OverflowError\<close> when the quotient is
  too large for a float. Otherwise both operands are converted, and a zero divisor
  raises.
\<close>

fun num_truediv :: "(real \<Rightarrow> pyfloat) \<Rightarrow> pynum \<Rightarrow> pynum \<Rightarrow> exn + pynum" where
  "num_truediv rnd (PInt a) (PInt b) =
     (if b = 0 then Inl ZeroDivisionError
      else (case rnd (of_int a / of_int b) of
              Fin r \<Rightarrow> Inr (PFloat (Fin r))
            | PInf \<Rightarrow> Inl OverflowError
            | NInf \<Rightarrow> Inl OverflowError
            | NaN \<Rightarrow> Inl OverflowError))"
| "num_truediv rnd x y =
     and_then (to_float rnd x) (\<lambda>a. and_then (to_float rnd y) (\<lambda>b.
     and_then (float_div a b) (\<lambda>q. Inr (PFloat (round_float rnd q)))))"

text \<open>
  \<open>round(x, ndigits)\<close> with \<open>ndigits\<close> not negative: an \<open>int\<close> is returned as it
  is, a float is rounded in decimal and the result rounded to a float.
\<close>

fun num_round :: "(real \<Rightarrow> pyfloat) \<Rightarrow> pynum \<Rightarrow> nat \<Rightarrow> pynum" where
  "num_round rnd (PInt i) ndigits = PInt i"
| "num_round rnd (PFloat f) ndigits = PFloat (round_float rnd (py_round f ndigits))"

text \<open>
  The JSON values that are Python numbers; \<open>bool\<close> is a subclass of \<open>int\<close>, with
  \<open>True\<close> equal to 1.
\<close>

fun as_number :: "json \<Rightarrow> pynum option" where
  "as_number (JInt i) = Some (PInt i)"
| "as_number (JNum f) = Some (PFloat f)"
| "as_number (JBool b) = Some (PInt (if b then 1 else 0))"
| "as_number v = None"

text \<open>\<open>v == 0\<close> on any value: a value that is no number is not equal to 0.\<close>

definition json_is_zero :: "json \<Rightarrow> bool" where
  "json_is_zero v = (case as_number v of None \<Rightarrow> False | Some x \<Rightarrow> num_is_zero x)"

text \<open>\<open>round(v, ndigits)\<close> on any value: only a number can be rounded.\<close>

definition json_round :: "(real \<Rightarrow> pyfloat) \<Rightarrow> json \<Rightarrow> nat \<Rightarrow> exn + pynum" where
  "json_round rnd v ndigits =
     (case as_number v of None \<Rightarrow> Inl TypeError | Some x \<Rightarrow> Inr (num_round rnd x ndigits))"

text \<open>
  \<open>sum(vs)\<close>: the total starts at the \<open>int\<close> 0 and the items are added from the
  left. (From Python 3.12 on a sum of floats carries a correction term, which can change
  the last bits of the total and nothing else.)
\<close>

fun sum_loop :: "(real \<Rightarrow> pyfloat) \<Rightarrow> pynum \<Rightarrow> json list \<Rightarrow> exn + pynum" where
  "sum_loop rnd acc [] = Inr acc"
| "sum_loop rnd acc (v # vs) =
     (case as_number v of
        None \<Rightarrow> Inl TypeError
      | Some x \<Rightarrow> and_then (num_add rnd acc x) (\<lambda>acc'. sum_loop rnd acc' vs))"

definition json_sum :: "(real \<Rightarrow> pyfloat) \<Rightarrow> json list \<Rightarrow> exn + pynum" where
  "json_sum rnd vs = sum_loop rnd (PInt 0) vs"

text \<open>
  \<open>calculate_percentage_change(old_value, new_value)\<close> (lines 180-185) on any two
  values. Subtraction raises \<open>TypeError\<close> unless both are numbers.
\<close>

definition calculate_percentage_change_json ::
  "(real \<Rightarrow> pyfloat) \<Rightarrow> json \<Rightarrow> json \<Rightarrow> exn + pynum" where
  "calculate_percentage_change_json rnd old_value new_value =
     (if json_is_zero old_value
      then Inr (PFloat (if json_is_zero new_value then Fin 0 else PInf))
      else
        (case (as_number new_value, as_number old_value) of
           (Some y, Some x) \<Rightarrow>
             and_then (num_sub rnd y x) (\<lambda>d.
             and_then (num_truediv rnd d x) (\<lambda>q. num_mul rnd q (PInt 100)))
         | _ \<Rightarrow> Inl TypeError))"

text \<open>\<open>round(p, 2) if p != float('inf') else 'N/A'\<close> (lines 218 and 231).\<close>

definition pct_field_num :: "(real \<Rightarrow> pyfloat) \<Rightarrow> pynum \<Rightarrow> pynum pct_value" where
  "pct_field_num rnd p = (if num_ne_inf p then Pct (num_round rnd p 2) else NotAvailable)"

text \<open>\<open>rates[date].get(to_currency, 0)\<close> (line 206): the default is the \<open>int\<close> 0.\<close>

definition rate_at :: "json dict \<Rightarrow> string \<Rightarrow> string \<Rightarrow> exn + json" where
  "rate_at rts to_currency d =
     and_then (dict_getitem rts d) (\<lambda>entry. json_get entry to_currency (JInt 0))"

text \<open>The loop of lines 204-219.\<close>

fun daily_loop_json ::
  "(real \<Rightarrow> pyfloat) \<Rightarrow> json dict \<Rightarrow> string \<Rightarrow> nat \<Rightarrow> string list \<Rightarrow> json list \<Rightarrow>
    pynum daily_stat list \<Rightarrow> exn + (json list \<times> pynum daily_stat list)" where
  "daily_loop_json rnd rts to_currency i [] rate_values daily_data =
     Inr (rate_values, daily_data)"
| "daily_loop_json rnd rts to_currency i (d # rest) rate_values daily_data =
     and_then (rate_at rts to_currency d) (\<lambda>r.
       let rate_values' = rate_values @ [r]
       in and_then
            (if 0 < i
             then and_then (list_getitem rate_values' (int i - 1))
                    (\<lambda>prev_rate. calculate_percentage_change_json rnd prev_rate r)
             else Inr (PFloat (Fin 0)))
            (\<lambda>p.
             and_then (json_round rnd r 5) (\<lambda>rounded.
               daily_loop_json rnd rts to_currency (i + 1) rest rate_values'
                 (daily_data @
                  [\<lparr>date = d, rate = rounded, pct_change = pct_field_num rnd p\<rparr>]))))"

text \<open>
  \<open>process_rates_data(rates_data, to_currency, breakdown)\<close> (lines 188-239) on the
  dictionary \<open>get_rates\<close> returns.
\<close>

definition process_rates_data_json ::
  "(real \<Rightarrow> pyfloat) \<Rightarrow> (json, json) rates_data \<Rightarrow> string \<Rightarrow> string \<Rightarrow>
    exn + pynum stats_output" where
  "process_rates_data_json rnd rd to_currency breakdown =
     (if \<not> (case success rd of None \<Rightarrow> False | Some b \<Rightarrow> b)
      then Inr (ErrorOutput ''Failed to retrieve rates data'')
      else
        let rts = (case rates rd of None \<Rightarrow> [] | Some r \<Rightarrow> r) in
        if rts = [] then Inr (ErrorOutput ''No rates data available'')
        else
          let sorted_dates = sort (map fst rts) in
          and_then (daily_loop_json rnd rts to_currency 0 sorted_dates [] [])
            (\<lambda>(rate_values, daily_data).
          and_then (if rate_values \<noteq> [] then list_getitem rate_values 0 else Inr (JInt 0))
            (\<lambda>start_r.
          and_then (if rate_values \<noteq> [] then list_getitem rate_values (- 1) else Inr (JInt 0))
            (\<lambda>end_r.
          and_then (calculate_percentage_change_json rnd start_r end_r) (\<lambda>change.
          and_then (if rate_values \<noteq> []
                    then and_then (json_sum rnd rate_values)
                           (\<lambda>s. num_truediv rnd s (PInt (int (length rate_values))))
                    else Inr (PInt 0)) (\<lambda>mean.
          and_then (json_round rnd start_r 5) (\<lambda>start_rounded.
          and_then (json_round rnd end_r 5) (\<lambda>end_rounded.
            Inr (StatsOutput
                  \<lparr>start_rate = start_rounded,
                   end_rate = end_rounded,
                   total_pct_change = pct_field_num rnd change,
                   mean_rate = num_round rnd mean 5\<rparr>
                  (if breakdown = ''day'' then Some daily_data else None))))))))))"

text \<open>
  What the statements need of the rounding, each a property of rounding to the nearest
  binary64 float: a half of an integer of at most 53 bits is a float; a real of
  magnitude up to \<open>2 ^ 1023\<close> rounds to a finite float; a real of magnitude 1 or more
  does not round to zero.
\<close>

definition float_rounding :: "(real \<Rightarrow> pyfloat) \<Rightarrow> bool" where
  "float_rounding rnd =
     ((\<forall>i::int. \<bar>i\<bar> \<le> 2 ^ 53 \<longrightarrow> rnd (of_int i / 2) = Fin (of_int i / 2)) \<and>
      (\<forall>x. \<bar>x\<bar> \<le> 2 ^ 1023 \<longrightarrow> (\<exists>r. rnd x = Fin r)) \<and>
      (\<forall>x. 1 \<le> \<bar>x\<bar> \<longrightarrow> rnd x \<noteq> Fin 0))"

text \<open>
  The inputs of the calculator that are of the type its code expects: every day's entry
  is a dictionary, and the rate it holds for the quote currency, when it holds one, is a
  number; or, more narrowly, a float.
\<close>

definition numeric_rates :: "json dict \<Rightarrow> string \<Rightarrow> bool" where
  "numeric_rates rts to_currency =
     list_all (\<lambda>item.
       case snd item of
         JObj kvs \<Rightarrow>
           (case map_of kvs to_currency of None \<Rightarrow> True | Some v \<Rightarrow> as_number v \<noteq> None)
       | _ \<Rightarrow> False) rts"

definition float_rates :: "json dict \<Rightarrow> string \<Rightarrow> bool" where
  "float_rates rts to_currency =
     list_all (\<lambda>item.
       case snd item of
         JObj kvs \<Rightarrow>
           (case map_of kvs to_currency of
              None \<Rightarrow> True
            | Some v \<Rightarrow> (case v of JNum f \<Rightarrow> True | _ \<Rightarrow> False))
       | _ \<Rightarrow> False) rts"

section \<open>Closed forms of the calculator\<close>

text \<open>
  The functions below are not in the source: they say in closed form what the loop of
  \<open>process_rates_data\<close> computes, and are proved equal to it (\<open>daily_loop_closed\<close>).
  \<open>rate_on\<close> is the rate the loop reads for a date, \<open>pct_between\<close> the value
  \<open>calculate_percentage_change\<close> returns, and \<open>breakdown_from\<close> the list of daily
  entries for dated rates, given the rate before the first of them, if any.
\<close>

definition rate_on :: "(string \<times> pyfloat) list dict \<Rightarrow> string \<Rightarrow> string \<Rightarrow> pyfloat" where
  "rate_on rts to_currency d =
     (case map_of rts d of None \<Rightarrow> Fin 0 | Some entry \<Rightarrow> dict_get entry to_currency (Fin 0))"

definition pct_between :: "pyfloat \<Rightarrow> pyfloat \<Rightarrow> pyfloat" where
  "pct_between old_value new_value =
     (if old_value = Fin 0 then (if new_value = Fin 0 then Fin 0 else PInf)
      else float_mul (float_div_nonzero (float_sub new_value old_value) old_value) (Fin 100))"

fun breakdown_from ::
  "pyfloat option \<Rightarrow> (string \<times> pyfloat) list \<Rightarrow> pyfloat daily_stat list" where
  "breakdown_from prev [] = []"
| "breakdown_from prev ((d, r) # rest) =
     \<lparr>date = d, rate = py_round r 5,
      pct_change = pct_field (case prev of None \<Rightarrow> Fin 0 | Some p \<Rightarrow> pct_between p r)\<rparr>
     # breakdown_from (Some r) rest"

section \<open>Notions used in the statements about the service\<close>

text \<open>
  None of the definitions of this section is in the source; they name what the
  statements below talk about.

  \<open>dict_keys d\<close> are the keys of a dictionary, \<open>d.keys()\<close>. A date key lies within
  the requested range when it parses as a date that is between the two bounds, both
  included.
\<close>

definition dict_keys :: "'v dict \<Rightarrow> string list" where
  "dict_keys d = map fst d"

definition date_in_range :: "string \<Rightarrow> datetime \<Rightarrow> datetime \<Rightarrow> bool" where
  "date_in_range k start end_dt =
     (case strptime k of Inl e \<Rightarrow> False | Inr d \<Rightarrow> dt_le start d \<and> dt_le d end_dt)"

text \<open>
  A remote call fails when the request raises, or the status is not 200, or the body
  does not parse to an object whose \<open>success\<close> is true.
\<close>

definition call_fails :: "exn + response \<Rightarrow> bool" where
  "call_fails r =
     (case r of
        Inl e \<Rightarrow> True
      | Inr resp \<Rightarrow>
          status_code resp \<noteq> 200 \<or>
          (case json_body resp of
             Inl e \<Rightarrow> True
           | Inr data \<Rightarrow>
               (case json_get data ''success'' (JBool False) of
                  Inl e \<Rightarrow> True
                | Inr s \<Rightarrow> \<not> truthy s)))"

text \<open>
  The fallback dataset loads when the file opens as a JSON document that has a
  \<open>rates\<close> object, every key of which is a date.
\<close>

definition dataset_loads :: "service \<Rightarrow> world \<Rightarrow> bool" where
  "dataset_loads self w =
     (case load_json_file w (fallback_file self) of
        Inl e \<Rightarrow> False
      | Inr data \<Rightarrow>
          (case json_getitem data ''rates'' of
             Inl e \<Rightarrow> False
           | Inr table \<Rightarrow>
               (case json_items table of
                  Inl e \<Rightarrow> False
                | Inr items \<Rightarrow>
                    list_all (\<lambda>kv. case strptime (fst kv) of Inl e \<Rightarrow> False | Inr d \<Rightarrow> True)
                      items)))"

text \<open>
  The date keys of the \<open>quotes\<close> object of the timeframe response, when the request
  returns a response that \<open>_get_timeframe_rates\<close> takes its rates from: status 200
  and a body that passes the test of line 51.
\<close>

definition timeframe_dates ::
  "service \<Rightarrow> world \<Rightarrow> string \<Rightarrow> string \<Rightarrow> string \<Rightarrow> string \<Rightarrow> string list" where
  "timeframe_dates self w start_date end_date from_currency to_currency =
     (case requests_get w (base_url self @ ''/timeframe'')
             (timeframe_params self start_date end_date from_currency to_currency) 10 of
        Inl e \<Rightarrow> []
      | Inr resp \<Rightarrow>
          if status_code resp \<noteq> 200 then []
          else
            (case json_body resp of
               Inl e \<Rightarrow> []
             | Inr data \<Rightarrow>
                 if has_quotes data \<noteq> Inr True then []
                 else
                   (case json_getitem data ''quotes'' of
                      Inl e \<Rightarrow> []
                    | Inr quotes \<Rightarrow>
                        (case json_items quotes of
                           Inl e \<Rightarrow> []
                         | Inr items \<Rightarrow> dict_keys items))))"

text \<open>The two shapes of a result: the success dictionary and the failure dictionary.\<close>

definition is_success :: "(json, json) rates_data \<Rightarrow> bool" where
  "is_success r =
     (success r = Some True \<and> historical r = Some True \<and> base r \<noteq> None \<and>
      rates r \<noteq> None \<and> error r = None)"

definition is_failure :: "(json, json) rates_data \<Rightarrow> exn \<Rightarrow> bool" where
  "is_failure r e =
     (r = \<lparr>success = Some False, historical = None, base = None, rates = None,
           error = Some e\<rparr>)"

subsection \<open>Example environments\<close>

text \<open>
  The service as \<open>__init__\<close> builds it when no credential is set, and a fallback
  file with two days of rates.
\<close>

definition example_service :: service where
  "example_service =
     \<lparr>base_url = ''https://api.exchangerate.host'', fallback_file = ''data/sample_api.json'',
      api_key = None\<rparr>"

definition example_dataset :: json where
  "example_dataset =
     JObj [(''base'', JStr ''USD''),
           (''rates'',
            JObj [(''2025-07-01'', JObj [(''EUR'', JNum (Fin (9 / 10)))]),
                  (''2025-07-02'', JObj [(''EUR'', JNum (Fin (91 / 100)))]),
                  (''2025-07-03'', JObj [(''EUR'', JNum (Fin (92 / 100)))])])]"

text \<open>A world in which every request raises and the fallback file is in place.\<close>

definition offline_world :: world where
  "offline_world =
     \<lparr>requests_get = (\<lambda>url params timeout. Inl RequestException),
      load_json_file = (\<lambda>path. Inr example_dataset),
      strftime_pads_year = False\<rparr>"

text \<open>A world in which every request raises and the fallback file cannot be opened.\<close>

definition broken_world :: world where
  "broken_world =
     \<lparr>requests_get = (\<lambda>url params timeout. Inl RequestException),
      load_json_file = (\<lambda>path. Inl OSError),
      strftime_pads_year = False\<rparr>"

text \<open>
  A world whose remote side answers every request with status 200 and the given
  \<open>quotes\<close> for the timeframe endpoint, and with a rate for the pair USDEUR for the
  historical endpoint.
\<close>

definition answering_world :: "json \<Rightarrow> world" where
  "answering_world timeframe_quotes =
     \<lparr>requests_get = (\<lambda>url params timeout.
        if url = ''https://api.exchangerate.host/timeframe''
        then Inr \<lparr>status_code = 200,
                  json_body = Inr (JObj [(''success'', JBool True),
                                         (''quotes'', timeframe_quotes)])\<rparr>
        else Inr \<lparr>status_code = 200,
                  json_body = Inr (JObj [(''success'', JBool True),
                                         (''quotes'', JObj [(''USDEUR'', JNum (Fin (9 / 10)))])])\<rparr>),
      load_json_file = (\<lambda>path. Inr example_dataset),
      strftime_pads_year = False\<rparr>"

text \<open>
  A world in which every request raises and the fallback file holds a dataset whose
  entry for one day is \<open>null\<close> and whose rate for another day is a string.
\<close>

definition unchecked_dataset :: json where
  "unchecked_dataset =
     JObj [(''base'', JStr ''USD''),
           (''rates'',
            JObj [(''2025-07-01'', JNull),
                  (''2025-07-02'', JObj [(''EUR'', JStr ''0.91'')])])]"

definition unchecked_world :: world where
  "unchecked_world =
     \<lparr>requests_get = (\<lambda>url params timeout. Inl RequestException),
      load_json_file = (\<lambda>path. Inr unchecked_dataset),
      strftime_pads_year = False\<rparr>"

section \<open>Basic facts\<close>

lemma and_then_Inl [simp]: "and_then (Inl e) f = Inl e"
  by (simp add: and_then_def)

lemma and_then_Inr [simp]: "and_then (Inr x) f = f x"
  by (simp add: and_then_def)

lemma float_eq_zero [simp]: "float_eq x (Fin 0) \<longleftrightarrow> x = Fin 0"
  by (auto simp: float_eq_def)

lemma round_half_even_zero: "round_half_even 0 = 0"
  by (simp add: round_half_even_def Let_def)

lemma pct_field_zero: "pct_field (Fin 0) = Pct (Fin 0)"
  by (simp add: pct_field_def float_ne_def float_eq_def round_half_even_zero)

lemma pct_field_NotAvailable: "pct_field p = NotAvailable \<longleftrightarrow> p = PInf"
  by (auto simp: pct_field_def float_ne_def float_eq_def)

lemma list_getitem_first: "xs \<noteq> [] \<Longrightarrow> list_getitem xs 0 = Inr (hd xs)"
  by (cases xs) (auto simp: list_getitem_def)

lemma list_getitem_minus_one: "xs \<noteq> [] \<Longrightarrow> list_getitem xs (- 1) = Inr (last xs)"
  by (cases xs rule: rev_cases) (auto simp: list_getitem_def nth_append)

lemma list_getitem_last:
  "rv \<noteq> [] \<Longrightarrow> list_getitem (rv @ [r]) (int (length rv) - 1) = Inr (last rv)"
  by (cases rv rule: rev_cases) (auto simp: list_getitem_def nth_append)

lemma dict_getitem_present:
  "d \<in> fst ` set rts \<Longrightarrow> \<exists>entry. map_of rts d = Some entry \<and> dict_getitem rts d = Inr entry"
  by (cases "map_of rts d") (auto simp: dict_getitem_def map_of_eq_None_iff)

section \<open>Dates\<close>

text \<open>Formatting a valid date and parsing it again gives the date back.\<close>

lemma digit_char_eqI: "(of_char c :: nat) = 48 + n \<Longrightarrow> digit_char n = c"
  by (metis char_of_char digit_char_def)

lemma digit_char_simps:
  "digit_char 0 = CHR ''0''" "digit_char 1 = CHR ''1''" "digit_char 2 = CHR ''2''"
  "digit_char 3 = CHR ''3''" "digit_char 4 = CHR ''4''" "digit_char 5 = CHR ''5''"
  "digit_char 6 = CHR ''6''" "digit_char 7 = CHR ''7''" "digit_char 8 = CHR ''8''"
  "digit_char 9 = CHR ''9''"
  by (rule digit_char_eqI, simp)+

lemma digit_char_one [simp]: "digit_char (Suc 0) = CHR ''1''"
  using digit_char_simps(2) by simp

lemma digit_val_chars:
  "digit_val CHR ''0'' = 0" "digit_val CHR ''1'' = 1" "digit_val CHR ''2'' = 2"
  "digit_val CHR ''3'' = 3"
  by (simp_all add: digit_val_def)

lemma is_digit_digit_char: "n < 10 \<Longrightarrow> is_digit (digit_char n)"
  by (simp add: is_digit_def digit_char_def)

lemma digit_val_digit_char: "n < 10 \<Longrightarrow> digit_val (digit_char n) = n"
  by (simp add: digit_val_def digit_char_def)


lemma two_digits:
  "(m::nat) < 10 \<Longrightarrow> m div 10 = 0 \<and> m mod 10 = m"
  "10 \<le> m \<Longrightarrow> m < 20 \<Longrightarrow> m div 10 = 1 \<and> m mod 10 = m - 10"
  "20 \<le> m \<Longrightarrow> m < 30 \<Longrightarrow> m div 10 = 2 \<and> m mod 10 = m - 20"
  "30 \<le> m \<Longrightarrow> m < 40 \<Longrightarrow> m div 10 = 3 \<and> m mod 10 = m - 30"
  by (simp_all add: le_div_geq le_mod_geq)

lemma year_digits:
  "1000 * (y div 1000) + 100 * (y div 100 mod 10) + 10 * (y div 10 mod 10) + y mod 10 = (y::nat)"
proof -
  define a where "a = y div 10"
  define b where "b = a div 10"
  define c where "c = b div 10"
  define y0 where "y0 = y mod 10"
  define a0 where "a0 = a mod 10"
  define b0 where "b0 = b mod 10"
  have 1: "y = 10 * a + y0" by (simp add: a_def y0_def)
  have 2: "a = 10 * b + a0" by (simp add: b_def a0_def)
  have 3: "b = 10 * c + b0" by (simp add: c_def b0_def)
  have 4: "y div 100 = b" by (simp add: a_def b_def div_mult2_eq [symmetric])
  have 5: "y div 1000 = c" by (simp add: a_def b_def c_def div_mult2_eq [symmetric])
  have "1000 * c + 100 * b0 + 10 * a0 + y0 = y" using 1 2 3 by linarith
  then show ?thesis by (simp add: 4 5 a_def b0_def a0_def y0_def)
qed


lemma parse_year_digits:
  assumes "y \<le> 9999"
  shows "parse_year (digit_char (y div 1000) # digit_char (y div 100 mod 10) #
           digit_char (y div 10 mod 10) # digit_char (y mod 10) # rest) = Some (y, rest)"
proof -
  have a: "y div 1000 < 10" using assms by (simp add: less_mult_imp_div_less)
  show ?thesis
    using a by (simp add: is_digit_digit_char digit_val_digit_char year_digits)
qed

lemma parse_month_digits:
  assumes "1 \<le> m" and "m \<le> 12"
  shows "parse_month (digit_char (m div 10) # digit_char (m mod 10) # rest) = Some (m, rest)"
proof (cases "m < 10")
  case True
  then show ?thesis
    using assms two_digits(1) [of m]
    by (simp add: digit_char_simps is_digit_digit_char digit_val_digit_char)
next
  case False
  then have "m - 10 \<le> 2" using assms by linarith
  then show ?thesis
    using assms False two_digits(2) [of m]
    by (simp add: digit_char_simps is_digit_digit_char digit_val_digit_char)
qed

lemma parse_day_digits:
  assumes "1 \<le> d" and "d \<le> 31"
  shows "parse_day [digit_char (d div 10), digit_char (d mod 10)] = Some (d, [])"
proof -
  consider "d < 10" | "10 \<le> d \<and> d < 20" | "20 \<le> d \<and> d < 30" | "30 \<le> d" by linarith
  then show ?thesis
  proof cases
    case 1
    then show ?thesis
      using assms two_digits(1) [of d]
      by (simp add: digit_char_simps is_digit_digit_char digit_val_digit_char digit_val_chars)
  next
    case 2
    then have "d - 10 < 10" by linarith
    then show ?thesis
      using 2 two_digits(2) [of d]
      by (simp add: digit_char_simps is_digit_digit_char digit_val_digit_char digit_val_chars)
  next
    case 3
    then have "d - 20 < 10" by linarith
    then show ?thesis
      using 3 two_digits(3) [of d]
      by (simp add: digit_char_simps is_digit_digit_char digit_val_digit_char digit_val_chars)
  next
    case 4
    then have "d - 30 \<le> 1" using assms by linarith
    then show ?thesis
      using 4 assms two_digits(4) [of d]
      by (simp add: digit_char_simps is_digit_digit_char digit_val_digit_char digit_val_chars)
  qed
qed

lemma days_in_month_le: "days_in_month y m \<le> 31"
  by (simp add: days_in_month_def)

lemma strptime_strftime:
  assumes "valid_date (year dt) (month dt) (day dt)" and "pads \<or> 1000 \<le> year dt"
  shows "strptime (strftime pads dt) = Inr dt"
proof -
  have y: "year dt \<le> 9999" and m: "1 \<le> month dt" "month dt \<le> 12" and d: "1 \<le> day dt"
    using assms by (simp_all add: valid_date_def)
  have d31: "day dt \<le> 31"
    using assms days_in_month_le [of "year dt" "month dt"] by (simp add: valid_date_def)
  show ?thesis
    using assms
    by (simp add: strptime_def strftime_def year_chars_def parse_year_digits [OF y]
        parse_month_digits [OF m]
        parse_day_digits [OF d d31] del: parse_year.simps parse_month.simps parse_day.simps)
qed

lemma dt_le_refl: "dt_le a a"
  by (simp add: dt_le_def)

lemma dt_le_trans: "dt_le a b \<Longrightarrow> dt_le b c \<Longrightarrow> dt_le a c"
  by (auto simp: dt_le_def)

lemma days_in_month_pos: "0 < days_in_month y m"
  by (simp add: days_in_month_def)

lemma add_day_valid:
  assumes "add_day a = Inr b" and "valid_date (year a) (month a) (day a)"
  shows "valid_date (year b) (month b) (day b) \<and> dt_le a b"
proof -
  consider (same_month) "day a < days_in_month (year a) (month a)"
    | (next_month) "\<not> day a < days_in_month (year a) (month a)" "month a < 12"
    | (next_year) "\<not> day a < days_in_month (year a) (month a)" "\<not> month a < 12"
    by blast
  then show ?thesis
  proof cases
    case same_month
    then have "b = Datetime (year a) (month a) (day a + 1)"
      using assms(1) by (simp add: add_day_def)
    then show ?thesis
      using assms(2) same_month by (simp add: valid_date_def dt_le_def)
  next
    case next_month
    then have "b = Datetime (year a) (month a + 1) 1"
      using assms(1) by (simp add: add_day_def)
    then show ?thesis
      using assms(2) next_month days_in_month_pos [of "year a" "Suc (month a)"]
      by (simp add: valid_date_def dt_le_def)
  next
    case next_year
    then have "year a < 9999 \<and> b = Datetime (year a + 1) 1 1"
      using assms(1) by (simp add: add_day_def split: if_splits)
    then show ?thesis
      using assms(2) days_in_month_pos [of "Suc (year a)" 1]
      by (simp add: valid_date_def dt_le_def)
  qed
qed


lemma strptime_valid: "strptime s = Inr dt \<Longrightarrow> valid_date (year dt) (month dt) (day dt)"
  unfolding strptime_def
  by (simp split: option.splits prod.splits list.splits if_splits) auto

section \<open>The calculator\<close>

text \<open>
  The division of \<open>calculate_percentage_change\<close> is never by zero, so the function
  always returns, and what it returns is \<open>pct_between\<close>.
\<close>

lemma calculate_percentage_change_closed:
  "calculate_percentage_change old_value new_value = Inr (pct_between old_value new_value)"
  by (simp add: calculate_percentage_change_def pct_between_def float_div_def)

text \<open>
  The loop never raises when every date it is given is a key of the dictionary, and
  appends one rate and one daily entry per date; \<open>i\<close> is the number of rates seen.
\<close>

lemma daily_loop_closed:
  "set ds \<subseteq> fst ` set rts \<Longrightarrow> i = length rv \<Longrightarrow>
   daily_loop rts c i ds rv dd =
     Inr (rv @ map (rate_on rts c) ds,
          dd @ breakdown_from (if rv = [] then None else Some (last rv))
                 (map (\<lambda>d. (d, rate_on rts c d)) ds))"
proof (induction ds arbitrary: i rv dd)
  case Nil
  then show ?case by simp
next
  case (Cons d ds)
  from Cons.prems obtain entry where e: "map_of rts d = Some entry" "dict_getitem rts d = Inr entry"
    using dict_getitem_present [of d rts] by auto
  have r: "rate_on rts c d = dict_get entry c (Fin 0)"
    by (simp add: rate_on_def e)
  have sub: "set ds \<subseteq> fst ` set rts" using Cons.prems by simp
  show ?case
  proof (cases "rv = []")
    case True
    then show ?thesis
      using Cons.prems Cons.IH [OF sub, of "Suc 0" "[dict_get entry c (Fin 0)]"] e r
      by (simp add: Let_def)
  next
    case False
    then show ?thesis
      using Cons.prems Cons.IH [OF sub, of "Suc (length rv)" "rv @ [dict_get entry c (Fin 0)]"] e r
      by (simp add: Let_def list_getitem_last calculate_percentage_change_closed)
  qed
qed

text \<open>
  On a successful result with a series that is not empty, \<open>process_rates_data\<close> returns
  the statistics below: every field is a rounding of an expression in the rates as they
  were read.
\<close>

lemma process_rates_data_closed:
  assumes "success rd = Some True" and "rates rd = Some rts" and "rts \<noteq> []"
  shows "process_rates_data rd c b =
    Inr (StatsOutput
      \<lparr>start_rate = py_round (hd (map (rate_on rts c) (sort (map fst rts)))) 5,
       end_rate = py_round (last (map (rate_on rts c) (sort (map fst rts)))) 5,
       total_pct_change =
         pct_field (pct_between (hd (map (rate_on rts c) (sort (map fst rts))))
                      (last (map (rate_on rts c) (sort (map fst rts))))),
       mean_rate =
         py_round (float_div_nonzero (py_sum (map (rate_on rts c) (sort (map fst rts))))
                     (Fin (real (length rts)))) 5\<rparr>
      (if b = ''day''
       then Some (breakdown_from None (map (\<lambda>d. (d, rate_on rts c d)) (sort (map fst rts))))
       else None))"
proof -
  let ?ds = "sort (map fst rts)"
  have sub: "set ?ds \<subseteq> fst ` set rts" by simp
  have loop: "daily_loop rts c 0 ?ds [] [] =
      Inr (map (rate_on rts c) ?ds, breakdown_from None (map (\<lambda>d. (d, rate_on rts c d)) ?ds))"
    using daily_loop_closed [OF sub, of 0 "[]" c "[]"] by simp
  have "length ?ds = length rts" by simp
  then have ds_ne: "?ds \<noteq> []" using assms(3) by (metis length_0_conv)
  then have ne: "map (rate_on rts c) ?ds \<noteq> []" by simp
  have len: "real (length rts) \<noteq> 0" using assms(3) by simp
  show ?thesis
    using assms ne ds_ne len
    by (simp add: process_rates_data_def Let_def loop list_getitem_first list_getitem_minus_one
        calculate_percentage_change_closed float_div_def del: sort_key_simps)
qed

lemma breakdown_from_dates: "map date (breakdown_from prev xs) = map fst xs"
  by (induction prev xs rule: breakdown_from.induct) simp_all

lemma breakdown_from_first:
  "xs \<noteq> [] \<Longrightarrow> pct_change (hd (breakdown_from None xs)) = Pct (Fin 0)"
  by (cases xs) (auto simp: pct_field_zero)

lemma process_rates_data_failed:
  "success rd \<noteq> Some True \<Longrightarrow>
   process_rates_data rd c b = Inr (ErrorOutput ''Failed to retrieve rates data'')"
  by (cases "success rd") (auto simp: process_rates_data_def)

lemma process_rates_data_empty:
  "success rd = Some True \<Longrightarrow> rates rd = None \<or> rates rd = Some [] \<Longrightarrow>
   process_rates_data rd c b = Inr (ErrorOutput ''No rates data available'')"
  by (auto simp: process_rates_data_def)

lemma rate_on_cong: "map_of rts1 = map_of rts2 \<Longrightarrow> rate_on rts1 c = rate_on rts2 c"
  by (auto simp: rate_on_def fun_eq_iff)

lemma same_items_same_lookup:
  assumes "distinct (map fst rts1)" and "mset rts1 = mset rts2"
  shows "map_of rts1 = map_of rts2"
proof -
  have "mset (map fst rts1) = mset (map fst rts2)" using assms(2) by (metis mset_map)
  then have "distinct (map fst rts2)" using assms(1) by (metis mset_eq_imp_distinct_iff)
  moreover have "set rts1 = set rts2" using assms(2) by (metis mset_eq_setD)
  ultimately show ?thesis using assms(1) by (simp add: map_of_inject_set)
qed

lemma same_items_same_dates:
  assumes "mset rts1 = mset rts2"
  shows "sort (map fst rts1) = sort (map fst rts2)"
proof -
  have "mset (map fst rts1) = mset (map fst rts2)" using assms by (metis mset_map)
  then show ?thesis by (metis properties_for_sort sorted_sort mset_sort)
qed

lemma sort_two_dates: "sort [''2025-07-01'', ''2025-07-02''] = [''2025-07-01'', ''2025-07-02'']"
  by code_simp

lemma sort_two_dates_swapped:
  "sort [''2025-07-02'', ''2025-07-01''] = [''2025-07-01'', ''2025-07-02'']"
  by code_simp

text \<open>
  Claim C1, as the code has it. \<open>calculate_percentage_change(0, 0)\<close> returns \<open>0.0\<close>.
  For every \<open>new_value\<close> other than 0, \<open>calculate_percentage_change(0, new_value)\<close>
  raises nothing and returns positive infinity, \<open>float('inf')\<close>: the infinite float
  is itself the marker of an undefined change. Only \<open>process_rates_data\<close> replaces it:
  a percentage of its output is the string \<open>'N/A'\<close> exactly when the computed change is
  positive infinity.
\<close>

theorem percentage_change_from_zero:
  "calculate_percentage_change (Fin 0) (Fin 0) = Inr (Fin 0) \<and>
   (new_value \<noteq> Fin 0 \<longrightarrow> calculate_percentage_change (Fin 0) new_value = Inr PInf) \<and>
   (pct_field p = NotAvailable \<longleftrightarrow> p = PInf)"
  by (simp add: calculate_percentage_change_def pct_field_NotAvailable)

theorem percentage_change_from_zero_witness:
  "Fin (- 3) \<noteq> Fin 0 \<and> calculate_percentage_change (Fin 0) (Fin (- 3)) = Inr PInf \<and>
   NaN \<noteq> Fin 0 \<and> calculate_percentage_change (Fin 0) NaN = Inr PInf \<and>
   pct_field PInf = NotAvailable"
  using percentage_change_from_zero [of "Fin (- 3)" PInf]
    percentage_change_from_zero [of NaN PInf]
  by simp

text \<open>
  Against claim C1 as the specification states it: at \<open>new_value = 5\<close> the function
  returns an infinite float.
\<close>

theorem percentage_change_from_zero_is_infinite:
  "calculate_percentage_change (Fin 0) (Fin 5) = Inr PInf \<and> is_infinite PInf"
  by (simp add: calculate_percentage_change_def is_infinite_def)

text \<open>
  Claim C6. \<open>process_rates_data\<close> returns the dictionary \<open>{'error': msg}\<close> exactly
  when the input does not carry a true \<open>success\<close> or its \<open>rates\<close> are missing or
  empty. A failed retrieval gives \<open>'Failed to retrieve rates data'\<close>, a successful but
  empty series gives \<open>'No rates data available'\<close>, and the two messages differ.
\<close>

theorem process_rates_data_error_iff:
  "(success rd \<noteq> Some True \<longrightarrow>
      process_rates_data rd c b = Inr (ErrorOutput ''Failed to retrieve rates data'')) \<and>
   (success rd = Some True \<and> (rates rd = None \<or> rates rd = Some []) \<longrightarrow>
      process_rates_data rd c b = Inr (ErrorOutput ''No rates data available'')) \<and>
   ((\<exists>msg. process_rates_data rd c b = Inr (ErrorOutput msg)) \<longleftrightarrow>
      (success rd \<noteq> Some True \<or> rates rd = None \<or> rates rd = Some [])) \<and>
   ''No rates data available'' \<noteq> ''Failed to retrieve rates data''"
proof -
  have stats: "\<not> (\<exists>msg. process_rates_data rd c b = Inr (ErrorOutput msg))"
    if "success rd = Some True" and "rates rd \<noteq> None" and "rates rd \<noteq> Some []"
  proof -
    from that obtain rts where "rates rd = Some rts" and "rts \<noteq> []" by auto
    then show ?thesis
      using process_rates_data_closed [OF that(1), of rts c b] by simp
  qed
  show ?thesis
    using process_rates_data_failed [of rd c b] process_rates_data_empty [of rd c b] stats
    by blast
qed

theorem process_rates_data_error_iff_witness:
  "process_rates_data
     (\<lparr>success = Some False, historical = None, base = None, rates = None,
       error = Some OSError\<rparr> :: (string, (string \<times> pyfloat) list) rates_data)
     ''EUR'' ''day'' = Inr (ErrorOutput ''Failed to retrieve rates data'') \<and>
   process_rates_data
     (\<lparr>success = Some True, historical = Some True, base = Some ''USD'', rates = Some [],
       error = None\<rparr> :: (string, (string \<times> pyfloat) list) rates_data)
     ''EUR'' ''day'' = Inr (ErrorOutput ''No rates data available'') \<and>
   \<not> (\<exists>msg. process_rates_data
     (\<lparr>success = Some True, historical = Some True, base = Some ''USD'',
       rates = Some [(''2025-07-01'', [(''EUR'', Fin (9 / 10))])],
       error = None\<rparr> :: (string, (string \<times> pyfloat) list) rates_data)
     ''EUR'' ''day'' = Inr (ErrorOutput msg))"
  using
    process_rates_data_error_iff [of "\<lparr>success = Some False, historical = None, base = None,
       rates = None, error = Some OSError\<rparr> :: (string, (string \<times> pyfloat) list) rates_data"
       "''EUR''" "''day''"]
    process_rates_data_error_iff [of "\<lparr>success = Some True, historical = Some True,
       base = Some ''USD'', rates = Some [],
       error = None\<rparr> :: (string, (string \<times> pyfloat) list) rates_data" "''EUR''" "''day''"]
    process_rates_data_error_iff [of "\<lparr>success = Some True, historical = Some True,
       base = Some ''USD'', rates = Some [(''2025-07-01'', [(''EUR'', Fin (9 / 10))])],
       error = None\<rparr> :: (string, (string \<times> pyfloat) list) rates_data" "''EUR''" "''day''"]
  by simp

text \<open>
  Claim C8. On the successful series \<open>{"2025-07-01": {"EUR": 0.9}, "2025-07-02":
  {"EUR": 0.91}}\<close> with quote currency EUR and breakdown \<open>'day'\<close> the result has the
  breakdown \<open>[{date: "2025-07-01", rate: 0.9, pct_change: 0.0}, {date: "2025-07-02",
  rate: 0.91, pct_change: 1.11}]\<close> and the totals \<open>{start_rate: 0.9, end_rate: 0.91,
  total_pct_change: 1.11, mean_rate: 0.905}\<close>. Rounding is applied to the output fields
  only: on every successful series that is not empty, each rate of the output is the
  rate as read rounded to 5 places, and each percentage is computed from the rates as
  read and then rounded to 2 places.
\<close>

theorem process_rates_data_two_days:
  "process_rates_data
     (\<lparr>success = Some True, historical = Some True, base = Some ''USD'',
       rates = Some [(''2025-07-01'', [(''EUR'', Fin (9 / 10))]),
                     (''2025-07-02'', [(''EUR'', Fin (91 / 100))])],
       error = None\<rparr> :: (string, (string \<times> pyfloat) list) rates_data)
     ''EUR'' ''day'' =
   Inr (StatsOutput
     \<lparr>start_rate = Fin (9 / 10), end_rate = Fin (91 / 100),
      total_pct_change = Pct (Fin (111 / 100)), mean_rate = Fin (905 / 1000)\<rparr>
     (Some [\<lparr>date = ''2025-07-01'', rate = Fin (9 / 10), pct_change = Pct (Fin 0)\<rparr>,
            \<lparr>date = ''2025-07-02'', rate = Fin (91 / 100),
             pct_change = Pct (Fin (111 / 100))\<rparr>])) \<and>
   (success rd = Some True \<and> rates rd = Some rts \<and> rts \<noteq> [] \<longrightarrow>
    process_rates_data rd c b =
    Inr (StatsOutput
      \<lparr>start_rate = py_round (hd (map (rate_on rts c) (sort (map fst rts)))) 5,
       end_rate = py_round (last (map (rate_on rts c) (sort (map fst rts)))) 5,
       total_pct_change =
         pct_field (pct_between (hd (map (rate_on rts c) (sort (map fst rts))))
                      (last (map (rate_on rts c) (sort (map fst rts))))),
       mean_rate =
         py_round (float_div_nonzero (py_sum (map (rate_on rts c) (sort (map fst rts))))
                     (Fin (real (length rts)))) 5\<rparr>
      (if b = ''day''
       then Some (breakdown_from None (map (\<lambda>d. (d, rate_on rts c d)) (sort (map fst rts))))
       else None)))"
proof -
  let ?rts = "[(''2025-07-01'', [(''EUR'', Fin (9 / 10))]),
               (''2025-07-02'', [(''EUR'', Fin (91 / 100))])]"
  let ?rd = "\<lparr>success = Some True, historical = Some True, base = Some ''USD'',
       rates = Some ?rts, error = None\<rparr> :: (string, (string \<times> pyfloat) list) rates_data"
  have "process_rates_data ?rd ''EUR'' ''day'' =
    Inr (StatsOutput
     \<lparr>start_rate = Fin (9 / 10), end_rate = Fin (91 / 100),
      total_pct_change = Pct (Fin (111 / 100)), mean_rate = Fin (905 / 1000)\<rparr>
     (Some [\<lparr>date = ''2025-07-01'', rate = Fin (9 / 10), pct_change = Pct (Fin 0)\<rparr>,
            \<lparr>date = ''2025-07-02'', rate = Fin (91 / 100),
             pct_change = Pct (Fin (111 / 100))\<rparr>]))"
    by (subst process_rates_data_closed [where rts = ?rts])
       (simp_all add: sort_two_dates rate_on_def dict_get_def pct_between_def pct_field_def
          float_ne_def float_eq_def float_sub_def py_sum_def round_half_even_def Let_def
          del: sort_key_simps)
  then show ?thesis
    using process_rates_data_closed [of rd rts c b] by blast
qed

text \<open>
  An instance is a series whose rates round to 0.0 and 0.00001: the change between them
  is 75 percent, computed from 0.000004 and 0.000007, not from the rounded rates.
\<close>

theorem process_rates_data_two_days_witness:
  "process_rates_data
     (\<lparr>success = Some True, historical = Some True, base = Some ''USD'',
       rates = Some [(''2025-07-01'', [(''EUR'', Fin (4 / 1000000))]),
                     (''2025-07-02'', [(''EUR'', Fin (7 / 1000000))])],
       error = None\<rparr> :: (string, (string \<times> pyfloat) list) rates_data)
     ''EUR'' ''day'' =
   Inr (StatsOutput
     \<lparr>start_rate = Fin 0, end_rate = Fin (1 / 100000),
      total_pct_change = Pct (Fin 75), mean_rate = Fin (1 / 100000)\<rparr>
     (Some [\<lparr>date = ''2025-07-01'', rate = Fin 0, pct_change = Pct (Fin 0)\<rparr>,
            \<lparr>date = ''2025-07-02'', rate = Fin (1 / 100000), pct_change = Pct (Fin 75)\<rparr>]))"
  using process_rates_data_two_days
    [of "\<lparr>success = Some True, historical = Some True, base = Some ''USD'',
       rates = Some [(''2025-07-01'', [(''EUR'', Fin (4 / 1000000))]),
                     (''2025-07-02'', [(''EUR'', Fin (7 / 1000000))])],
       error = None\<rparr> :: (string, (string \<times> pyfloat) list) rates_data"
      "[(''2025-07-01'', [(''EUR'', Fin (4 / 1000000))]),
        (''2025-07-02'', [(''EUR'', Fin (7 / 1000000))])]" "''EUR''" "''day''"]
  by (simp add: sort_two_dates rate_on_def dict_get_def pct_between_def pct_field_def
        float_ne_def float_eq_def float_sub_def py_sum_def round_half_even_def Let_def
        del: sort_key_simps)



section \<open>The service when every remote call fails\<close>

lemma has_quotes_of_failed:
  assumes "call_fails (Inr resp)" and "status_code resp = 200" and "json_body resp = Inr data"
  shows "has_quotes data = Inr False \<or> (\<exists>e. has_quotes data = Inl e)"
  using assms by (auto simp: call_fails_def has_quotes_def split: sum.splits)

lemma day_step_of_failed:
  assumes "call_fails (requests_get w (base_url self @ ''/historical'')
             (historical_params self ds f t) 5)"
  shows "day_step self w f t ds rts = Inr rts \<or> (\<exists>e. day_step self w f t ds rts = Inl e)"
proof (cases "requests_get w (base_url self @ ''/historical'') (historical_params self ds f t) 5")
  case (Inl e)
  then show ?thesis by (simp add: day_step_def)
next
  case (Inr resp)
  show ?thesis
  proof (cases "status_code resp = 200")
    case False
    then show ?thesis using Inr by (simp add: day_step_def)
  next
    case True
    show ?thesis
    proof (cases "json_body resp")
      case (Inl e)
      then show ?thesis using Inr True by (simp add: day_step_def)
    next
      case body: (Inr data)
      from has_quotes_of_failed [OF _ True body] assms Inr
      have "has_quotes data = Inr False \<or> (\<exists>e. has_quotes data = Inl e)" by simp
      then show ?thesis using Inr True body by (auto simp: day_step_def)
    qed
  qed
qed

lemma day_loop_of_failed:
  "\<forall>url params timeout. call_fails (requests_get w url params timeout) \<Longrightarrow>
   day_loop self w f t current end_dt rts = Inr r \<Longrightarrow> r = rts"
proof (induction self w f t current end_dt rts rule: day_loop.induct)
  case (1 self w f t current end_dt rts)
  note fails = "1.prems"(1) and result = "1.prems"(2)
  show ?case
  proof (cases "dt_le current end_dt")
    case False
    then show ?thesis using result by (simp add: day_loop.simps [of _ _ _ _ current])
  next
    case True
    have "day_step self w f t (strftime (strftime_pads_year w) current) rts = Inr rts \<or>
          (\<exists>e. day_step self w f t (strftime (strftime_pads_year w) current) rts = Inl e)"
      using fails by (intro day_step_of_failed) blast
    then show ?thesis
    proof
      assume step: "day_step self w f t (strftime (strftime_pads_year w) current) rts = Inr rts"
      show ?thesis
      proof (cases "add_day current")
        case (Inl e)
        then show ?thesis
          using result True step by (simp add: day_loop.simps [of _ _ _ _ current])
      next
        case (Inr nxt)
        then show ?thesis
          using result True step "1.IH" [OF True step Inr fails]
          by (simp add: day_loop.simps [of _ _ _ _ current])
      qed
    next
      assume "\<exists>e. day_step self w f t (strftime (strftime_pads_year w) current) rts = Inl e"
      then show ?thesis
        using result True by (auto simp: day_loop.simps [of _ _ _ _ current])
    qed
  qed
qed

lemma day_by_day_of_failed:
  assumes "\<forall>url params timeout. call_fails (requests_get w url params timeout)"
  shows "get_rates_day_by_day self w s e f t = load_fallback_data self w s e"
proof -
  have "\<exists>ex. get_rates_day_by_day_try self w s e f t = Inl ex"
  proof (cases "strptime s")
    case (Inl a)
    then show ?thesis by (simp add: get_rates_day_by_day_try_def)
  next
    case start: (Inr sd)
    show ?thesis
    proof (cases "strptime e")
      case (Inl a)
      then show ?thesis using start by (simp add: get_rates_day_by_day_try_def)
    next
      case fin: (Inr ed)
      show ?thesis
      proof (cases "day_loop self w f t sd ed []")
        case (Inl a)
        then show ?thesis using start fin by (simp add: get_rates_day_by_day_try_def)
      next
        case (Inr r)
        then have "r = []" using assms by (rule day_loop_of_failed [rotated])
        then show ?thesis using Inr start fin by (simp add: get_rates_day_by_day_try_def)
      qed
    qed
  qed
  then show ?thesis by (auto simp: get_rates_day_by_day_def)
qed

lemma timeframe_try_of_failed:
  assumes "call_fails (requests_get w (base_url self @ ''/timeframe'')
             (timeframe_params self s e f t) 10)"
  shows "get_timeframe_rates_try self w s e f t = get_rates_day_by_day self w s e f t \<or>
         (\<exists>ex. get_timeframe_rates_try self w s e f t = Inl ex)"
proof (cases "requests_get w (base_url self @ ''/timeframe'') (timeframe_params self s e f t) 10")
  case (Inl a)
  then show ?thesis by (simp add: get_timeframe_rates_try_def)
next
  case (Inr resp)
  show ?thesis
  proof (cases "status_code resp = 200")
    case False
    then show ?thesis using Inr by (simp add: get_timeframe_rates_try_def)
  next
    case True
    show ?thesis
    proof (cases "json_body resp")
      case (Inl a)
      then show ?thesis using Inr True by (simp add: get_timeframe_rates_try_def)
    next
      case body: (Inr data)
      from has_quotes_of_failed [OF _ True body] assms Inr
      have "has_quotes data = Inr False \<or> (\<exists>e. has_quotes data = Inl e)" by simp
      then show ?thesis using Inr True body by (auto simp: get_timeframe_rates_try_def)
    qed
  qed
qed

lemma timeframe_of_failed:
  assumes "call_fails (requests_get w (base_url self @ ''/timeframe'')
             (timeframe_params self s e f t) 10)"
  shows "get_timeframe_rates self w s e f t = get_rates_day_by_day self w s e f t"
  using timeframe_try_of_failed [OF assms]
  by (cases "get_rates_day_by_day self w s e f t") (auto simp: get_timeframe_rates_def)

lemma historical_of_failed:
  assumes "call_fails (requests_get w (base_url self @ ''/historical'')
             (historical_params self d f t) 10)"
  shows "get_historical_rate self w d f t = load_fallback_data self w d d"
proof -
  have "\<exists>ex. get_historical_rate_try self w d f t = Inl ex"
  proof (cases "requests_get w (base_url self @ ''/historical'') (historical_params self d f t) 10")
    case (Inl a)
    then show ?thesis by (simp add: get_historical_rate_try_def)
  next
    case (Inr resp)
    show ?thesis
    proof (cases "status_code resp = 200")
      case False
      then show ?thesis using Inr by (simp add: get_historical_rate_try_def)
    next
      case True
      show ?thesis
      proof (cases "json_body resp")
        case (Inl a)
        then show ?thesis using Inr True by (simp add: get_historical_rate_try_def)
      next
        case body: (Inr data)
        from has_quotes_of_failed [OF _ True body] assms Inr
        have "has_quotes data = Inr False \<or> (\<exists>e. has_quotes data = Inl e)" by simp
        then show ?thesis using Inr True body by (auto simp: get_historical_rate_try_def)
      qed
    qed
  qed
  then show ?thesis by (auto simp: get_historical_rate_def)
qed

lemma load_fallback_data_returns: "\<exists>r. load_fallback_data self w s e = Inr r"
  by (simp add: load_fallback_data_def split: sum.splits)

lemma get_rates_of_failed:
  assumes "\<forall>url params timeout. call_fails (requests_get w url params timeout)"
  shows "get_rates self w s e f t = load_fallback_data self w s e"
proof -
  obtain r where r: "load_fallback_data self w s e = Inr r"
    using load_fallback_data_returns by blast
  show ?thesis
  proof (cases "s = e")
    case True
    have "get_historical_rate self w s f t = load_fallback_data self w s s"
      using assms by (intro historical_of_failed) blast
    then show ?thesis using True r by (simp add: get_rates_def)
  next
    case False
    have "get_timeframe_rates self w s e f t = get_rates_day_by_day self w s e f t"
      using assms by (intro timeframe_of_failed) blast
    then show ?thesis
      using False r day_by_day_of_failed [OF assms, of self s e f t] by (simp add: get_rates_def)
  qed
qed

lemma update_new_key: "k \<notin> fst ` set al \<Longrightarrow> AList.update k v al = al @ [(k, v)]"
  by (induction al) auto

lemma filter_loop_closed:
  "list_all (\<lambda>kv. case strptime (fst kv) of Inl e \<Rightarrow> False | Inr d \<Rightarrow> True) items \<Longrightarrow>
   distinct (map fst items) \<Longrightarrow> fst ` set acc \<inter> fst ` set items = {} \<Longrightarrow>
   filter_loop start end_dt items acc =
     Inr (acc @ filter (\<lambda>kv. date_in_range (fst kv) start end_dt) items)"
proof (induction items arbitrary: acc)
  case Nil
  then show ?case by simp
next
  case (Cons item items)
  obtain k v where item: "item = (k, v)" by (cases item)
  from Cons.prems(1) item obtain d where d: "strptime k = Inr d"
    by (cases "strptime k") auto
  have rest: "list_all (\<lambda>kv. case strptime (fst kv) of Inl e \<Rightarrow> False | Inr d \<Rightarrow> True) items"
    and dist: "distinct (map fst items)" and fresh: "k \<notin> fst ` set items"
    and new: "k \<notin> fst ` set acc"
    using Cons.prems item by auto
  show ?case
  proof (cases "dt_le start d \<and> dt_le d end_dt")
    case True
    have disj: "fst ` set (acc @ [(k, v)]) \<inter> fst ` set items = {}"
      using Cons.prems(3) fresh item by auto
    show ?thesis
      using True d item Cons.IH [OF rest dist disj]
      by (simp add: update_new_key [OF new] date_in_range_def)
  next
    case False
    have disj: "fst ` set acc \<inter> fst ` set items = {}" using Cons.prems(3) by auto
    show ?thesis
      using False d item Cons.IH [OF rest dist disj]
      by (auto simp: date_in_range_def)
  qed
qed

text \<open>
  Claim C3. When every remote call fails and the fallback file holds a dataset (a base
  currency and a table from dates to rates), \<open>get_rates\<close> with two valid dates returns
  the success dictionary whose rates are the entries of the table with a date in
  \<open>[start, end]\<close>, both included, in the order of the table, and whose base is the
  base of the dataset.
\<close>

theorem get_rates_falls_back:
  assumes "\<forall>url params timeout. call_fails (requests_get w url params timeout)"
    and "load_json_file w (fallback_file self) = Inr (JObj dataset)"
    and "map_of dataset ''rates'' = Some (JObj table)"
    and "map_of dataset ''base'' = Some b"
    and "distinct (map fst table)"
    and "list_all (\<lambda>kv. case strptime (fst kv) of Inl e \<Rightarrow> False | Inr d \<Rightarrow> True) table"
    and "strptime start_date = Inr start" and "strptime end_date = Inr end_dt"
  shows "get_rates self w start_date end_date from_currency to_currency =
    Inr \<lparr>success = Some True, historical = Some True, base = Some b,
         rates = Some (filter (\<lambda>kv. date_in_range (fst kv) start end_dt) table),
         error = None\<rparr>"
proof -
  have loop: "filter_loop start end_dt table [] =
      Inr (filter (\<lambda>kv. date_in_range (fst kv) start end_dt) table)"
    using filter_loop_closed [OF assms(6) assms(5), of "[]" start end_dt] by simp
  have "load_fallback_data_try self w start_date end_date =
    Inr \<lparr>success = Some True, historical = Some True, base = Some b,
         rates = Some (filter (\<lambda>kv. date_in_range (fst kv) start end_dt) table),
         error = None\<rparr>"
    using assms(2,3,4,7,8) loop
    by (simp add: load_fallback_data_try_def dict_getitem_def dict_get_def)
  then show ?thesis
    using get_rates_of_failed [OF assms(1), of self start_date end_date from_currency to_currency]
    by (simp add: load_fallback_data_def)
qed

lemma strptime_examples:
  "strptime ''2025-07-01'' = Inr (Datetime 2025 7 1)"
  "strptime ''2025-07-02'' = Inr (Datetime 2025 7 2)"
  "strptime ''2025-07-03'' = Inr (Datetime 2025 7 3)"
  by (simp_all add: strptime_def is_digit_def digit_val_def valid_date_def days_in_month_def)

theorem get_rates_falls_back_witness:
  "get_rates example_service offline_world ''2025-07-02'' ''2025-07-03'' ''USD'' ''EUR'' =
    Inr \<lparr>success = Some True, historical = Some True, base = Some (JStr ''USD''),
         rates = Some [(''2025-07-02'', JObj [(''EUR'', JNum (Fin (91 / 100)))]),
                       (''2025-07-03'', JObj [(''EUR'', JNum (Fin (92 / 100)))])],
         error = None\<rparr>"
proof -
  have fails: "\<forall>url params timeout. call_fails (requests_get offline_world url params timeout)"
    by (simp add: offline_world_def call_fails_def)
  have dataset_file: "load_json_file offline_world (fallback_file example_service) =
      Inr (JObj [(''base'', JStr ''USD''),
           (''rates'',
            JObj [(''2025-07-01'', JObj [(''EUR'', JNum (Fin (9 / 10)))]),
                  (''2025-07-02'', JObj [(''EUR'', JNum (Fin (91 / 100)))]),
                  (''2025-07-03'', JObj [(''EUR'', JNum (Fin (92 / 100)))])])])"
    by (simp add: offline_world_def example_dataset_def)
  show ?thesis
    using get_rates_falls_back [OF fails dataset_file, of "[(''2025-07-01'', JObj [(''EUR'', JNum (Fin (9 / 10)))]),
                  (''2025-07-02'', JObj [(''EUR'', JNum (Fin (91 / 100)))]),
                  (''2025-07-03'', JObj [(''EUR'', JNum (Fin (92 / 100)))])]"
        "JStr ''USD''" "''2025-07-02''" "Datetime 2025 7 2" "''2025-07-03''" "Datetime 2025 7 3"
        "''USD''" "''EUR''"]
    by (simp add: strptime_examples date_in_range_def dt_le_def)
qed

section \<open>The service never raises\<close>

lemma and_then_InrE:
  assumes "and_then m f = Inr y"
  obtains x where "m = Inr x" and "f x = Inr y"
  using assms by (cases m) auto

lemma load_fallback_data_try_success:
  "load_fallback_data_try self w s e = Inr r \<Longrightarrow> is_success r"
  unfolding load_fallback_data_try_def
  by (elim and_then_InrE) (auto simp: is_success_def)

lemma load_fallback_data_shape:
  "\<exists>r. load_fallback_data self w s e = Inr r \<and>
     (is_success r \<or>
      (\<exists>ex. is_failure r ex \<and> load_fallback_data_try self w s e = Inl ex))"
proof (cases "load_fallback_data_try self w s e")
  case (Inl ex)
  then show ?thesis by (simp add: load_fallback_data_def is_failure_def)
next
  case (Inr r)
  then show ?thesis
    using load_fallback_data_try_success [OF Inr] by (simp add: load_fallback_data_def)
qed


lemma get_historical_rate_try_success:
  "get_historical_rate_try self w d f t = Inr r \<Longrightarrow> is_success r"
  unfolding get_historical_rate_try_def
  by (auto elim!: and_then_InrE split: if_splits option.splits simp: is_success_def)

lemma get_rates_day_by_day_try_success:
  "get_rates_day_by_day_try self w s e f t = Inr r \<Longrightarrow> is_success r"
  unfolding get_rates_day_by_day_try_def
  by (auto elim!: and_then_InrE split: if_splits simp: is_success_def)

lemma get_timeframe_rates_try_cases:
  "get_timeframe_rates_try self w s e f t = Inr r \<Longrightarrow>
   is_success r \<or> get_rates_day_by_day self w s e f t = Inr r"
  unfolding get_timeframe_rates_try_def
  by (auto elim!: and_then_InrE split: if_splits option.splits simp: is_success_def)


text \<open>
  Every tier returns, and what it returns is the success dictionary or the failure
  dictionary of a fallback block that raised.
\<close>

lemma get_historical_rate_shape:
  "\<exists>r. get_historical_rate self w d f t = Inr r \<and>
     (is_success r \<or>
      (\<exists>ex. is_failure r ex \<and> load_fallback_data_try self w d d = Inl ex))"
proof (cases "get_historical_rate_try self w d f t")
  case (Inl ex)
  then show ?thesis
    using load_fallback_data_shape [of self w d d] by (simp add: get_historical_rate_def)
next
  case (Inr r)
  then show ?thesis
    using get_historical_rate_try_success [OF Inr] by (simp add: get_historical_rate_def)
qed

lemma get_rates_day_by_day_shape:
  "\<exists>r. get_rates_day_by_day self w s e f t = Inr r \<and>
     (is_success r \<or>
      (\<exists>ex. is_failure r ex \<and> load_fallback_data_try self w s e = Inl ex))"
proof (cases "get_rates_day_by_day_try self w s e f t")
  case (Inl ex)
  then show ?thesis
    using load_fallback_data_shape [of self w s e] by (simp add: get_rates_day_by_day_def)
next
  case (Inr r)
  then show ?thesis
    using get_rates_day_by_day_try_success [OF Inr] by (simp add: get_rates_day_by_day_def)
qed

lemma get_timeframe_rates_shape:
  "\<exists>r. get_timeframe_rates self w s e f t = Inr r \<and>
     (is_success r \<or>
      (\<exists>ex. is_failure r ex \<and> load_fallback_data_try self w s e = Inl ex))"
proof (cases "get_timeframe_rates_try self w s e f t")
  case (Inl ex)
  then show ?thesis
    using get_rates_day_by_day_shape [of self w s e f t] by (simp add: get_timeframe_rates_def)
next
  case (Inr r)
  then show ?thesis
    using get_timeframe_rates_try_cases [OF Inr] get_rates_day_by_day_shape [of self w s e f t]
    by (auto simp: get_timeframe_rates_def)
qed

lemma get_rates_shape:
  "\<exists>r. get_rates self w s e f t = Inr r \<and>
     (is_success r \<or>
      (\<exists>ex. is_failure r ex \<and> load_fallback_data_try self w s e = Inl ex))"
proof (cases "s = e")
  case True
  then show ?thesis
    using get_historical_rate_shape [of self w s f t] by (auto simp: get_rates_def)
next
  case False
  then show ?thesis
    using get_timeframe_rates_shape [of self w s e f t] by (auto simp: get_rates_def)
qed

lemma filter_loop_returns:
  "list_all (\<lambda>kv. case strptime (fst kv) of Inl e \<Rightarrow> False | Inr d \<Rightarrow> True) items \<Longrightarrow>
   \<exists>r. filter_loop start end_dt items acc = Inr r"
proof (induction items arbitrary: acc)
  case Nil
  then show ?case by simp
next
  case (Cons item items)
  obtain k v where item: "item = (k, v)" by (cases item)
  from Cons.prems item obtain d where d: "strptime k = Inr d"
    by (cases "strptime k") auto
  have rest: "list_all (\<lambda>kv. case strptime (fst kv) of Inl e \<Rightarrow> False | Inr d \<Rightarrow> True) items"
    using Cons.prems by simp
  show ?case using item d Cons.IH [OF rest] by simp
qed

lemma load_fallback_data_try_returns:
  assumes "dataset_loads self w" and "strptime s = Inr sd" and "strptime e = Inr ed"
  shows "\<exists>r. load_fallback_data_try self w s e = Inr r"
proof -
  from assms(1) obtain data where data: "load_json_file w (fallback_file self) = Inr data"
    by (cases "load_json_file w (fallback_file self)") (auto simp: dataset_loads_def)
  from assms(1) data obtain table where table: "json_getitem data ''rates'' = Inr table"
    by (cases "json_getitem data ''rates''") (auto simp: dataset_loads_def)
  from assms(1) data table obtain items where items: "json_items table = Inr items"
    by (cases "json_items table") (auto simp: dataset_loads_def)
  have keys: "list_all (\<lambda>kv. case strptime (fst kv) of Inl e \<Rightarrow> False | Inr d \<Rightarrow> True) items"
    using assms(1) data table items by (simp add: dataset_loads_def)
  obtain filtered where filtered: "filter_loop sd ed items [] = Inr filtered"
    using filter_loop_returns [OF keys] by blast
  obtain kvs where "data = JObj kvs" using table by (cases data) auto
  then have "\<exists>b. json_get data ''base'' (JStr ''USD'') = Inr b" by simp
  then show ?thesis
    using assms(2,3) data table items filtered by (auto simp: load_fallback_data_try_def)
qed


lemma broken_world_fails:
  "\<forall>url params timeout. call_fails (requests_get broken_world url params timeout)"
  by (simp add: broken_world_def call_fails_def)


lemma offline_world_fails:
  "\<forall>url params timeout. call_fails (requests_get offline_world url params timeout)"
  by (simp add: offline_world_def call_fails_def)


section \<open>The dates of the returned series\<close>

lemma dict_keys_update: "set (dict_keys (AList.update k v al)) = insert k (set (dict_keys al))"
  by (simp add: dict_keys_def dom_update)

lemma dict_keys_Nil [simp]: "dict_keys [] = []"
  by (simp add: dict_keys_def)

lemma timeframe_loop_keys:
  "timeframe_loop f t items acc = Inr r \<Longrightarrow>
   set (dict_keys r) \<subseteq> set (dict_keys acc) \<union> set (dict_keys items)"
proof (induction items arbitrary: acc)
  case Nil
  then show ?case by simp
next
  case (Cons item items)
  obtain k q where item: "item = (k, q)" by (cases item)
  have keys: "set (dict_keys (item # items)) = insert k (set (dict_keys items))"
    using item by (simp add: dict_keys_def)
  from Cons.prems item obtain present where
    p: "json_contains (f @ t) q = Inr present" and
    rest: "(if present
            then and_then (json_getitem q (f @ t))
                   (\<lambda>v. timeframe_loop f t items (AList.update k (JObj [(t, v)]) acc))
            else timeframe_loop f t items acc) = Inr r"
    by (auto elim!: and_then_InrE)
  show ?case
  proof (cases present)
    case True
    with rest obtain v where "timeframe_loop f t items (AList.update k (JObj [(t, v)]) acc) = Inr r"
      by (auto elim!: and_then_InrE)
    from Cons.IH [OF this] show ?thesis unfolding keys dict_keys_update by blast
  next
    case False
    with rest have "timeframe_loop f t items acc = Inr r" by simp
    from Cons.IH [OF this] show ?thesis unfolding keys by blast
  qed
qed

lemma day_step_keys:
  "day_step self w f t ds rts = Inr r \<Longrightarrow> set (dict_keys r) \<subseteq> insert ds (set (dict_keys rts))"
  unfolding day_step_def
  by (auto elim!: and_then_InrE split: if_splits simp: dict_keys_update)


lemma date_in_range_strftime:
  "valid_date (year d) (month d) (day d) \<Longrightarrow> pads \<or> 1000 \<le> year d \<Longrightarrow>
   dt_le start d \<Longrightarrow> dt_le d end_dt \<Longrightarrow>
   date_in_range (strftime pads d) start end_dt"
  by (simp add: date_in_range_def strptime_strftime)

lemma day_loop_keys:
  "day_loop self w f t current end_dt rts = Inr r \<Longrightarrow>
   valid_date (year current) (month current) (day current) \<Longrightarrow>
   strftime_pads_year w \<or> 1000 \<le> year current \<Longrightarrow> dt_le start current \<Longrightarrow>
   \<forall>k \<in> set (dict_keys rts). date_in_range k start end_dt \<Longrightarrow>
   \<forall>k \<in> set (dict_keys r). date_in_range k start end_dt"
proof (induction self w f t current end_dt rts rule: day_loop.induct)
  case (1 self w f t current end_dt rts)
  note result = "1.prems"(1) and valid = "1.prems"(2) and padded = "1.prems"(3)
    and lower = "1.prems"(4) and inv = "1.prems"(5)
  show ?case
  proof (cases "dt_le current end_dt")
    case False
    then have "r = rts" using result by (simp add: day_loop.simps [of _ _ _ _ current])
    then show ?thesis using inv by simp
  next
    case True
    show ?thesis
    proof (cases "day_step self w f t (strftime (strftime_pads_year w) current) rts")
      case (Inl ex)
      then show ?thesis using result True by (simp add: day_loop.simps [of _ _ _ _ current])
    next
      case step: (Inr rts')
      show ?thesis
      proof (cases "add_day current")
        case (Inl ex)
        then show ?thesis
          using result True step by (simp add: day_loop.simps [of _ _ _ _ current])
      next
        case nxt: (Inr nxt)
        have loop: "day_loop self w f t nxt end_dt rts' = Inr r"
          using result True step nxt by (simp add: day_loop.simps [of _ _ _ _ current])
        have here: "date_in_range (strftime (strftime_pads_year w) current) start end_dt"
          using valid padded lower True by (rule date_in_range_strftime)
        have inv': "\<forall>k \<in> set (dict_keys rts'). date_in_range k start end_dt"
          using day_step_keys [OF step] inv here by blast
        have valid': "valid_date (year nxt) (month nxt) (day nxt)" and up: "dt_le current nxt"
          using add_day_valid [OF nxt valid] by simp_all
        have lower': "dt_le start nxt" using lower up by (rule dt_le_trans)
        have "year current \<le> year nxt" using up by (auto simp: dt_le_def)
        then have padded': "strftime_pads_year w \<or> 1000 \<le> year nxt" using padded by auto
        show ?thesis using "1.IH" [OF True step nxt loop valid' padded' lower' inv'] .
      qed
    qed
  qed
qed

lemma filter_loop_keys:
  "filter_loop start end_dt items acc = Inr r \<Longrightarrow>
   \<forall>k \<in> set (dict_keys acc). date_in_range k start end_dt \<Longrightarrow>
   \<forall>k \<in> set (dict_keys r). date_in_range k start end_dt"
proof (induction items arbitrary: acc)
  case Nil
  then show ?case by simp
next
  case (Cons item items)
  obtain k v where item: "item = (k, v)" by (cases item)
  from Cons.prems(1) item obtain d where d: "strptime k = Inr d" and
    rest: "filter_loop start end_dt items
             (if dt_le start d \<and> dt_le d end_dt then AList.update k v acc else acc) = Inr r"
    by (auto elim!: and_then_InrE)
  show ?case
  proof (cases "dt_le start d \<and> dt_le d end_dt")
    case True
    then have "date_in_range k start end_dt" using d by (simp add: date_in_range_def)
    then have "\<forall>k' \<in> set (dict_keys (AList.update k v acc)). date_in_range k' start end_dt"
      using Cons.prems(2) unfolding dict_keys_update by blast
    moreover have "filter_loop start end_dt items (AList.update k v acc) = Inr r"
      using rest True by simp
    ultimately show ?thesis by (rule Cons.IH [rotated])
  next
    case False
    then have "filter_loop start end_dt items acc = Inr r" using rest by (auto split: if_splits)
    then show ?thesis using Cons.prems(2) by (rule Cons.IH)
  qed
qed


lemma load_fallback_data_keys:
  assumes "load_fallback_data self w s e = Inr r" and "strptime s = Inr sd"
    and "strptime e = Inr ed" and "rates r = Some rts"
  shows "\<forall>k \<in> set (dict_keys rts). date_in_range k sd ed"
proof (cases "load_fallback_data_try self w s e")
  case (Inl ex)
  then show ?thesis using assms(1,4) by (auto simp: load_fallback_data_def)
next
  case (Inr r')
  then have "r' = r" using assms(1) by (simp add: load_fallback_data_def)
  with Inr assms(2,3,4) obtain items where "filter_loop sd ed items [] = Inr rts"
    unfolding load_fallback_data_try_def by (auto elim!: and_then_InrE)
  then show ?thesis by (rule filter_loop_keys) simp
qed

lemma get_historical_rate_keys:
  assumes "get_historical_rate self w s f t = Inr r" and "strptime s = Inr sd"
    and "rates r = Some rts"
  shows "\<forall>k \<in> set (dict_keys rts). date_in_range k sd sd"
proof (cases "get_historical_rate_try self w s f t")
  case (Inl ex)
  then have "load_fallback_data self w s s = Inr r"
    using assms(1) by (simp add: get_historical_rate_def)
  then show ?thesis using assms(2) assms(2) assms(3) by (rule load_fallback_data_keys)
next
  case (Inr r')
  then have "r' = r" using assms(1) by (simp add: get_historical_rate_def)
  with Inr assms(3) have "dict_keys rts = [s]"
    unfolding get_historical_rate_try_def
    by (auto elim!: and_then_InrE split: if_splits option.splits simp: dict_keys_def)
  then show ?thesis using assms(2) by (simp add: date_in_range_def dt_le_refl)
qed

lemma get_rates_day_by_day_keys:
  assumes "get_rates_day_by_day self w s e f t = Inr r" and "strptime s = Inr sd"
    and "strptime e = Inr ed" and "rates r = Some rts"
    and "strftime_pads_year w \<or> 1000 \<le> year sd"
  shows "\<forall>k \<in> set (dict_keys rts). date_in_range k sd ed"
proof (cases "get_rates_day_by_day_try self w s e f t")
  case (Inl ex)
  then have "load_fallback_data self w s e = Inr r"
    using assms(1) by (simp add: get_rates_day_by_day_def)
  then show ?thesis using assms(2,3,4) by (rule load_fallback_data_keys)
next
  case (Inr r')
  then have "r' = r" using assms(1) by (simp add: get_rates_day_by_day_def)
  with Inr assms(2,3,4) have loop: "day_loop self w f t sd ed [] = Inr rts"
    unfolding get_rates_day_by_day_try_def
    by (auto elim!: and_then_InrE split: if_splits)
  have valid: "valid_date (year sd) (month sd) (day sd)" using assms(2) by (rule strptime_valid)
  show ?thesis using loop valid assms(5) dt_le_refl by (rule day_loop_keys) simp
qed

lemma get_timeframe_rates_try_source:
  assumes "get_timeframe_rates_try self w s e f t = Inr r"
  shows "get_rates_day_by_day self w s e f t = Inr r \<or>
    (\<exists>resp data quotes items rts.
       requests_get w (base_url self @ ''/timeframe'') (timeframe_params self s e f t) 10 = Inr resp \<and>
       status_code resp = 200 \<and> json_body resp = Inr data \<and> has_quotes data = Inr True \<and>
       json_getitem data ''quotes'' = Inr quotes \<and> json_items quotes = Inr items \<and>
       timeframe_loop f t items [] = Inr rts \<and> rates r = Some rts)"
proof -
  from assms obtain resp returned where
    resp: "requests_get w (base_url self @ ''/timeframe'') (timeframe_params self s e f t) 10 = Inr resp"
    and block: "(if status_code resp = 200
        then
          and_then (json_body resp) (\<lambda>data.
          and_then (has_quotes data) (\<lambda>ok.
            if ok
            then
              and_then (json_getitem data ''quotes'') (\<lambda>quotes.
              and_then (json_items quotes) (\<lambda>items.
              and_then (timeframe_loop f t items []) (\<lambda>rts.
                Inr (Some \<lparr>success = Some True, historical = Some True,
                           base = Some (JStr f), rates = Some rts,
                           error = None\<rparr>))))
            else Inr None))
        else Inr None) = Inr returned"
    and ret: "(case returned of Some r \<Rightarrow> Inr r
        | None \<Rightarrow> get_rates_day_by_day self w s e f t) = Inr r"
    unfolding get_timeframe_rates_try_def by (elim and_then_InrE)
  show ?thesis
  proof (cases returned)
    case None
    then show ?thesis using ret by simp
  next
    case (Some r0)
    then have r0: "r0 = r" using ret by simp
    have status: "status_code resp = 200" using block Some by (auto split: if_splits)
    from block status Some r0 obtain data ok where
      data: "json_body resp = Inr data" and ok: "has_quotes data = Inr ok" and
      inner: "(if ok
            then
              and_then (json_getitem data ''quotes'') (\<lambda>quotes.
              and_then (json_items quotes) (\<lambda>items.
              and_then (timeframe_loop f t items []) (\<lambda>rts.
                Inr (Some \<lparr>success = Some True, historical = Some True,
                           base = Some (JStr f), rates = Some rts,
                           error = None\<rparr>))))
            else Inr None) = Inr (Some r)"
      by (auto elim!: and_then_InrE)
    have "ok" using inner by (auto split: if_splits)
    with inner obtain quotes items rts where
      "json_getitem data ''quotes'' = Inr quotes" and "json_items quotes = Inr items" and
      "timeframe_loop f t items [] = Inr rts" and
      "r = \<lparr>success = Some True, historical = Some True, base = Some (JStr f),
             rates = Some rts, error = None\<rparr>"
      by (auto elim!: and_then_InrE)
    then show ?thesis using resp status data ok \<open>ok\<close> by auto
  qed
qed

lemma get_timeframe_rates_keys:
  assumes "get_timeframe_rates self w s e f t = Inr r" and "strptime s = Inr sd"
    and "strptime e = Inr ed" and "rates r = Some rts"
    and "\<forall>k \<in> set (timeframe_dates self w s e f t). date_in_range k sd ed"
    and "strftime_pads_year w \<or> 1000 \<le> year sd"
  shows "\<forall>k \<in> set (dict_keys rts). date_in_range k sd ed"
proof (cases "get_timeframe_rates_try self w s e f t")
  case (Inl ex)
  then have "get_rates_day_by_day self w s e f t = Inr r"
    using assms(1) by (simp add: get_timeframe_rates_def)
  then show ?thesis using assms(2,3,4,6) by (rule get_rates_day_by_day_keys)
next
  case (Inr r')
  then have tried: "get_timeframe_rates_try self w s e f t = Inr r"
    using assms(1) by (simp add: get_timeframe_rates_def)
  from get_timeframe_rates_try_source [OF tried] show ?thesis
  proof
    assume "get_rates_day_by_day self w s e f t = Inr r"
    then show ?thesis using assms(2,3,4,6) by (rule get_rates_day_by_day_keys)
  next
    assume "\<exists>resp data quotes items rts.
       requests_get w (base_url self @ ''/timeframe'') (timeframe_params self s e f t) 10 = Inr resp \<and>
       status_code resp = 200 \<and> json_body resp = Inr data \<and> has_quotes data = Inr True \<and>
       json_getitem data ''quotes'' = Inr quotes \<and> json_items quotes = Inr items \<and>
       timeframe_loop f t items [] = Inr rts \<and> rates r = Some rts"
    then obtain resp data quotes items where
      "requests_get w (base_url self @ ''/timeframe'') (timeframe_params self s e f t) 10 = Inr resp"
      "status_code resp = 200" "json_body resp = Inr data" "has_quotes data = Inr True"
      "json_getitem data ''quotes'' = Inr quotes" "json_items quotes = Inr items"
      and loop: "timeframe_loop f t items [] = Inr rts"
      using assms(4) by auto
    then have "timeframe_dates self w s e f t = dict_keys items"
      by (simp add: timeframe_dates_def)
    then show ?thesis using timeframe_loop_keys [OF loop] assms(5) by auto
  qed
qed

text \<open>
  The day-by-day tier writes its keys with \<open>strftime('%Y-%m-%d')\<close> (line 125). Where
  the C library does not pad the year, a day of a year below 1000 is written with fewer
  than four digits, and \<open>strptime\<close> with the same format does not read that key back.
\<close>

lemma strftime_unpadded_year:
  "strptime ''0999-12-31'' = Inr (Datetime 999 12 31)"
  "strftime False (Datetime 999 12 31) = ''999-12-31''"
  "strftime True (Datetime 999 12 31) = ''0999-12-31''"
  "strptime ''999-12-31'' = Inl ValueError"
  "\<not> date_in_range ''999-12-31'' (Datetime 999 12 31) (Datetime 999 12 31)"
  by (simp_all add: strptime_def strftime_def year_chars_def digit_char_simps is_digit_def
      digit_val_def valid_date_def days_in_month_def date_in_range_def)

text \<open>
  Claim C5, as the code has it. For all valid dates \<open>start\<close> and \<open>end\<close>, every date
  key of the series \<open>get_rates\<close> returns lies within \<open>[start, end]\<close>, both
  included, for every behaviour of the remote side in which the dates of a timeframe
  response the service takes its rates from lie within that range, provided the start
  year is at least 1000 or \<open>strftime\<close> pads the year to four digits. The service does
  not filter the dates of a timeframe response: it returns them as the remote side sent
  them. The keys of the day-by-day tier are written by \<open>strftime\<close>, and for a year
  below 1000 written without padding they are not dates of the format at all.
\<close>

theorem get_rates_dates_in_range:
  assumes "strptime start_date = Inr start" and "strptime end_date = Inr end_dt"
    and "\<forall>k \<in> set (timeframe_dates self w start_date end_date from_currency to_currency).
           date_in_range k start end_dt"
    and "get_rates self w start_date end_date from_currency to_currency = Inr r"
    and "rates r = Some rts"
    and "strftime_pads_year w \<or> 1000 \<le> year start"
  shows "\<forall>k \<in> set (dict_keys rts). date_in_range k start end_dt"
proof (cases "start_date = end_date")
  case True
  then have same: "end_dt = start" using assms(1,2) by simp
  show ?thesis
  proof (cases "get_historical_rate self w start_date from_currency to_currency")
    case (Inl ex)
    then have "load_fallback_data self w start_date end_date = Inr r"
      using assms(4) True by (simp add: get_rates_def)
    then show ?thesis using assms(1,2,5) by (rule load_fallback_data_keys)
  next
    case (Inr r')
    then have "get_historical_rate self w start_date from_currency to_currency = Inr r"
      using assms(4) True by (simp add: get_rates_def)
    then show ?thesis
      unfolding same using assms(1) assms(5) by (rule get_historical_rate_keys)
  qed
next
  case False
  show ?thesis
  proof (cases "get_timeframe_rates self w start_date end_date from_currency to_currency")
    case (Inl ex)
    then have "load_fallback_data self w start_date end_date = Inr r"
      using assms(4) False by (simp add: get_rates_def)
    then show ?thesis using assms(1,2,5) by (rule load_fallback_data_keys)
  next
    case (Inr r')
    then have "get_timeframe_rates self w start_date end_date from_currency to_currency = Inr r"
      using assms(4) False by (simp add: get_rates_def)
    then show ?thesis using assms(1,2,5,3,6) by (rule get_timeframe_rates_keys)
  qed
qed

lemma answering_world_timeframe:
  "timeframe_loop ''USD'' ''EUR'' quotes [] = Inr rts \<Longrightarrow>
   get_rates example_service (answering_world (JObj quotes)) ''2025-07-01'' ''2025-07-02''
     ''USD'' ''EUR'' =
   Inr \<lparr>success = Some True, historical = Some True, base = Some (JStr ''USD''),
        rates = Some rts, error = None\<rparr>"
  by (simp add: get_rates_def get_timeframe_rates_def get_timeframe_rates_try_def
       answering_world_def example_service_def has_quotes_def dict_get_def dict_getitem_def)

text \<open>
  Against claim C5 as the specification states it: a timeframe response for July 2025
  that holds a date of 2024 is returned with that date.
\<close>

theorem get_rates_returns_date_out_of_range:
  "strptime ''2025-07-01'' = Inr (Datetime 2025 7 1) \<and>
   strptime ''2025-07-02'' = Inr (Datetime 2025 7 2) \<and>
   get_rates example_service
     (answering_world (JObj [(''2024-01-01'', JObj [(''USDEUR'', JNum (Fin (9 / 10)))])]))
     ''2025-07-01'' ''2025-07-02'' ''USD'' ''EUR'' =
   Inr \<lparr>success = Some True, historical = Some True, base = Some (JStr ''USD''),
        rates = Some [(''2024-01-01'', JObj [(''EUR'', JNum (Fin (9 / 10)))])],
        error = None\<rparr> \<and>
   \<not> date_in_range ''2024-01-01'' (Datetime 2025 7 1) (Datetime 2025 7 2)"
proof -
  have "strptime ''2024-01-01'' = Inr (Datetime 2024 1 1)"
    by (simp add: strptime_def is_digit_def digit_val_def valid_date_def days_in_month_def)
  then have "\<not> date_in_range ''2024-01-01'' (Datetime 2025 7 1) (Datetime 2025 7 2)"
    by (simp add: date_in_range_def dt_le_def)
  moreover have "timeframe_loop ''USD'' ''EUR''
      [(''2024-01-01'', JObj [(''USDEUR'', JNum (Fin (9 / 10)))])] [] =
      Inr [(''2024-01-01'', JObj [(''EUR'', JNum (Fin (9 / 10)))])]"
    by (simp add: dict_getitem_def)
  ultimately show ?thesis
    by (simp add: strptime_examples answering_world_timeframe)
qed

theorem get_rates_dates_in_range_witness:
  "date_in_range ''2025-07-01'' (Datetime 2025 7 1) (Datetime 2025 7 2) \<and>
   date_in_range ''2025-07-02'' (Datetime 2025 7 1) (Datetime 2025 7 2)"
proof -
  let ?quotes = "[(''2025-07-01'', JObj [(''USDEUR'', JNum (Fin (9 / 10)))]),
                  (''2025-07-02'', JObj [(''USDEUR'', JNum (Fin (91 / 100)))])]"
  let ?rts = "[(''2025-07-01'', JObj [(''EUR'', JNum (Fin (9 / 10)))]),
               (''2025-07-02'', JObj [(''EUR'', JNum (Fin (91 / 100)))])]"
  let ?r = "\<lparr>success = Some True, historical = Some True, base = Some (JStr ''USD''),
        rates = Some ?rts, error = None\<rparr>"
  have "timeframe_loop ''USD'' ''EUR'' ?quotes [] = Inr ?rts"
    by (simp add: dict_getitem_def)
  then have result: "get_rates example_service (answering_world (JObj ?quotes))
      ''2025-07-01'' ''2025-07-02'' ''USD'' ''EUR'' = Inr ?r"
    by (rule answering_world_timeframe)
  have dates: "timeframe_dates example_service (answering_world (JObj ?quotes))
      ''2025-07-01'' ''2025-07-02'' ''USD'' ''EUR'' = [''2025-07-01'', ''2025-07-02'']"
    by (simp add: timeframe_dates_def answering_world_def example_service_def has_quotes_def
        dict_get_def dict_getitem_def dict_keys_def)
  have in_range: "\<forall>k \<in> set (timeframe_dates example_service (answering_world (JObj ?quotes))
      ''2025-07-01'' ''2025-07-02'' ''USD'' ''EUR'').
        date_in_range k (Datetime 2025 7 1) (Datetime 2025 7 2)"
    unfolding dates by (simp add: date_in_range_def strptime_examples dt_le_def)
  have rts: "rates ?r = Some ?rts" by simp
  have year: "strftime_pads_year (answering_world (JObj ?quotes)) \<or>
      1000 \<le> year (Datetime 2025 7 1)"
    by simp
  have "\<forall>k \<in> set (dict_keys ?rts). date_in_range k (Datetime 2025 7 1) (Datetime 2025 7 2)"
    using get_rates_dates_in_range
      [OF strptime_examples(1) strptime_examples(2) in_range result rts year] .
  then show ?thesis by (simp add: dict_keys_def)
qed

section \<open>A timeframe response without the requested pair\<close>

lemma strftime_examples:
  "strftime pads (Datetime 2025 7 1) = ''2025-07-01''"
  "strftime pads (Datetime 2025 7 2) = ''2025-07-02''"
  by (simp_all add: strftime_def year_chars_def digit_char_simps)

lemma add_day_examples:
  "add_day (Datetime 2025 7 1) = Inr (Datetime 2025 7 2)"
  "add_day (Datetime 2025 7 2) = Inr (Datetime 2025 7 3)"
  by (simp_all add: add_day_def days_in_month_def)

lemma first_day_examples:
  "strftime pads (Datetime 2025 7 (Suc 0)) = ''2025-07-01''"
  "add_day (Datetime 2025 7 (Suc 0)) = Inr (Datetime 2025 7 2)"
  using strftime_examples(1) add_day_examples(1) by simp_all

lemma answering_world_day_step:
  "day_step example_service (answering_world q) ''USD'' ''EUR'' d rts =
     Inr (AList.update d (JObj [(''EUR'', JNum (Fin (9 / 10)))]) rts)"
  by (simp add: day_step_def answering_world_def example_service_def has_quotes_def
      dict_get_def dict_getitem_def)

text \<open>
  Claim C2 says that a timeframe response with status 200, a true \<open>success\<close> and
  quotes in which the requested pair is missing from every date makes \<open>get_rates\<close>
  fall through to the day-by-day tier. The code does not: \<open>_get_timeframe_rates\<close>
  returns the empty series as a success, without the check for an empty result that
  \<open>_get_rates_day_by_day\<close> (line 138) and \<open>_get_historical_rate\<close> (line 91) make.
  Here the timeframe response for 2025-07-01 to 2025-07-02 has no pair on either date,
  while the historical endpoint would answer each date with a rate: \<open>get_rates\<close>
  returns no rates, and the day-by-day tier on the same input returns both days.
\<close>

theorem get_rates_returns_empty_timeframe:
  "get_rates example_service
     (answering_world (JObj [(''2025-07-01'', JObj []), (''2025-07-02'', JObj [])]))
     ''2025-07-01'' ''2025-07-02'' ''USD'' ''EUR'' =
   Inr \<lparr>success = Some True, historical = Some True, base = Some (JStr ''USD''),
        rates = Some [], error = None\<rparr> \<and>
   get_rates_day_by_day example_service
     (answering_world (JObj [(''2025-07-01'', JObj []), (''2025-07-02'', JObj [])]))
     ''2025-07-01'' ''2025-07-02'' ''USD'' ''EUR'' =
   Inr \<lparr>success = Some True, historical = Some True, base = Some (JStr ''USD''),
        rates = Some [(''2025-07-01'', JObj [(''EUR'', JNum (Fin (9 / 10)))]),
                      (''2025-07-02'', JObj [(''EUR'', JNum (Fin (9 / 10)))])],
        error = None\<rparr>"
proof -
  let ?w = "answering_world (JObj [(''2025-07-01'', JObj []), (''2025-07-02'', JObj [])])"
  have "timeframe_loop ''USD'' ''EUR'' [(''2025-07-01'', JObj []), (''2025-07-02'', JObj [])] [] =
      Inr []"
    by simp
  then have first: "get_rates example_service ?w ''2025-07-01'' ''2025-07-02'' ''USD'' ''EUR'' =
      Inr \<lparr>success = Some True, historical = Some True, base = Some (JStr ''USD''),
        rates = Some [], error = None\<rparr>"
    by (rule answering_world_timeframe)
  have third: "day_loop example_service ?w ''USD'' ''EUR'' (Datetime 2025 7 3) (Datetime 2025 7 2) rts
      = Inr rts" for rts
    by (simp add: day_loop.simps [of _ _ _ _ "Datetime 2025 7 3"] dt_le_def)
  have second: "day_loop example_service ?w ''USD'' ''EUR'' (Datetime 2025 7 2) (Datetime 2025 7 2) rts
      = Inr (AList.update ''2025-07-02'' (JObj [(''EUR'', JNum (Fin (9 / 10)))]) rts)" for rts
    by (simp add: day_loop.simps [of _ _ _ _ "Datetime 2025 7 2"] dt_le_def strftime_examples
        add_day_examples answering_world_day_step third)
  have loop: "day_loop example_service ?w ''USD'' ''EUR'' (Datetime 2025 7 1) (Datetime 2025 7 2) []
      = Inr [(''2025-07-01'', JObj [(''EUR'', JNum (Fin (9 / 10)))]),
             (''2025-07-02'', JObj [(''EUR'', JNum (Fin (9 / 10)))])]"
    by (simp add: day_loop.simps [of _ _ _ _ "Datetime 2025 7 1"] dt_le_def strftime_examples
        add_day_examples first_day_examples answering_world_day_step second)
  have "get_rates_day_by_day example_service ?w ''2025-07-01'' ''2025-07-02'' ''USD'' ''EUR'' =
   Inr \<lparr>success = Some True, historical = Some True, base = Some (JStr ''USD''),
        rates = Some [(''2025-07-01'', JObj [(''EUR'', JNum (Fin (9 / 10)))]),
                      (''2025-07-02'', JObj [(''EUR'', JNum (Fin (9 / 10)))])],
        error = None\<rparr>"
    using loop
    by (simp add: get_rates_day_by_day_def get_rates_day_by_day_try_def strptime_examples
        del: day_loop.simps)
  then show ?thesis using first by simp
qed

section \<open>The calculator on what the service returns\<close>

subsection \<open>Rounding\<close>

text \<open>Exact arithmetic is one of the roundings the statements below admit.\<close>

lemma float_rounding_exact: "float_rounding Fin"
  unfolding float_rounding_def by (intro conjI allI impI) auto

lemma rnd_half:
  assumes "float_rounding rnd" and "\<bar>i\<bar> \<le> 2 ^ 53"
  shows "rnd (of_int i / 2) = Fin (of_int i / 2)"
  using assms unfolding float_rounding_def by blast

lemma rnd_small_int:
  assumes "float_rounding rnd" and "\<bar>i\<bar> \<le> 2 ^ 52"
  shows "rnd (of_int i) = Fin (of_int i)"
proof -
  have "\<bar>2 * i\<bar> \<le> 2 ^ 53" using assms(2) by simp
  from rnd_half [OF assms(1) this] show ?thesis by simp
qed

lemma rnd_examples:
  assumes "float_rounding rnd"
  shows "rnd 0 = Fin 0" and "rnd 100 = Fin 100" and "rnd 50 = Fin 50" and "rnd (- 50) = Fin (- 50)"
    and "rnd (1 / 2) = Fin (1 / 2)" and "rnd (- (1 / 2)) = Fin (- (1 / 2))"
  using rnd_small_int [OF assms, of 0] rnd_small_int [OF assms, of 100]
    rnd_small_int [OF assms, of 50] rnd_small_int [OF assms, of "- 50"]
    rnd_half [OF assms, of 1] rnd_half [OF assms, of "- 1"]
  by simp_all

lemma rnd_finite:
  assumes "float_rounding rnd" and "\<bar>x\<bar> \<le> 2 ^ 1023"
  shows "\<exists>r. rnd x = Fin r"
  using assms unfolding float_rounding_def by blast

lemma rnd_nonzero:
  assumes "float_rounding rnd" and "1 \<le> \<bar>x\<bar>"
  shows "rnd x \<noteq> Fin 0"
  using assms unfolding float_rounding_def by blast

subsection \<open>The percentage change\<close>

lemma cpc_json_examples:
  assumes "float_rounding rnd"
  shows "calculate_percentage_change_json rnd (JInt 100) (JInt 150) = Inr (PFloat (Fin 50))"
    and "calculate_percentage_change_json rnd (JInt 100) (JInt 50) = Inr (PFloat (Fin (- 50)))"
    and "calculate_percentage_change_json rnd (JNum (Fin 100)) (JNum (Fin 150)) = Inr (PFloat (Fin 50))"
    and "calculate_percentage_change_json rnd (JNum (Fin 100)) (JNum (Fin 50)) = Inr (PFloat (Fin (- 50)))"
  using rnd_examples [OF assms]
  by (simp_all add: calculate_percentage_change_json_def json_is_zero_def float_sub_def
      float_div_def)

lemma cpc_json_floats:
  assumes "float_rounding rnd" and "a \<noteq> 0"
  shows "calculate_percentage_change_json rnd (JNum (Fin a)) (JNum (Fin b)) =
    Inr (PFloat (round_float rnd
      (float_mul (round_float rnd (float_div_nonzero (rnd (b - a)) (Fin a))) (Fin 100))))"
  using assms rnd_examples(2) [OF assms(1)]
  by (simp add: calculate_percentage_change_json_def json_is_zero_def float_sub_def
      float_div_def)

text \<open>
  Claim C7. For every \<open>old_value\<close> other than 0, \<open>calculate_percentage_change\<close> is
  \<open>((new_value - old_value) / old_value) * 100\<close> in Python's arithmetic: on two numbers
  the subtraction, the division and the multiplication in turn, each float result
  rounded to a float and an \<open>int\<close> too large for a float raising \<open>OverflowError\<close>
  as the expression does; on an \<open>old_value\<close> that is no number the subtraction raises
  \<open>TypeError\<close>. On two finite floats nothing raises, and the result is the rounded
  product of the rounded quotient of the rounded difference. The change from 100 to 150
  is the float 50.0 and the change from 100 to 50 is -50.0, for \<open>int\<close> and float
  arguments alike, whatever the last bits of other results are: the values on the way
  (50, 0.5 and 100) are floats.
\<close>

theorem percentage_change_expression:
  "(as_number old_value = Some x \<and> as_number new_value = Some y \<and> \<not> num_is_zero x \<longrightarrow>
      calculate_percentage_change_json rnd old_value new_value =
        and_then (num_sub rnd y x) (\<lambda>d.
        and_then (num_truediv rnd d x) (\<lambda>q. num_mul rnd q (PInt 100)))) \<and>
   (as_number old_value = None \<longrightarrow>
      calculate_percentage_change_json rnd old_value new_value = Inl TypeError) \<and>
   (float_rounding rnd \<and> a \<noteq> 0 \<longrightarrow>
      calculate_percentage_change_json rnd (JNum (Fin a)) (JNum (Fin b)) =
        Inr (PFloat (round_float rnd
          (float_mul (round_float rnd (float_div_nonzero (rnd (b - a)) (Fin a))) (Fin 100))))) \<and>
   (float_rounding rnd \<longrightarrow>
      calculate_percentage_change_json rnd (JInt 100) (JInt 150) = Inr (PFloat (Fin 50)) \<and>
      calculate_percentage_change_json rnd (JInt 100) (JInt 50) = Inr (PFloat (Fin (- 50))) \<and>
      calculate_percentage_change_json rnd (JNum (Fin 100)) (JNum (Fin 150)) =
        Inr (PFloat (Fin 50)) \<and>
      calculate_percentage_change_json rnd (JNum (Fin 100)) (JNum (Fin 50)) =
        Inr (PFloat (Fin (- 50))))"
proof (intro conjI impI)
  assume "as_number old_value = Some x \<and> as_number new_value = Some y \<and> \<not> num_is_zero x"
  then show "calculate_percentage_change_json rnd old_value new_value =
        and_then (num_sub rnd y x) (\<lambda>d.
        and_then (num_truediv rnd d x) (\<lambda>q. num_mul rnd q (PInt 100)))"
    by (simp add: calculate_percentage_change_json_def json_is_zero_def)
next
  assume "as_number old_value = None"
  then show "calculate_percentage_change_json rnd old_value new_value = Inl TypeError"
    by (simp add: calculate_percentage_change_json_def json_is_zero_def split: option.splits)
next
  assume "float_rounding rnd \<and> a \<noteq> 0"
  then show "calculate_percentage_change_json rnd (JNum (Fin a)) (JNum (Fin b)) =
        Inr (PFloat (round_float rnd
          (float_mul (round_float rnd (float_div_nonzero (rnd (b - a)) (Fin a))) (Fin 100))))"
    using cpc_json_floats [of rnd a b] by simp
qed (simp_all add: cpc_json_examples)

text \<open>An instance in exact arithmetic: the change from 8 to 10 is 25.\<close>

theorem percentage_change_expression_witness:
  "as_number (JInt 8) = Some (PInt 8) \<and> as_number (JNum (Fin 10)) = Some (PFloat (Fin 10)) \<and>
   \<not> num_is_zero (PInt 8) \<and> as_number (JStr ''8'') = None \<and> float_rounding Fin \<and> (8::real) \<noteq> 0 \<and>
   calculate_percentage_change_json Fin (JInt 8) (JNum (Fin 10)) = Inr (PFloat (Fin 25)) \<and>
   calculate_percentage_change_json Fin (JStr ''8'') (JNum (Fin 10)) = Inl TypeError \<and>
   calculate_percentage_change_json Fin (JNum (Fin 8)) (JNum (Fin 10)) = Inr (PFloat (Fin 25)) \<and>
   calculate_percentage_change_json Fin (JInt 100) (JInt 150) = Inr (PFloat (Fin 50))"
  using percentage_change_expression [of "JInt 8" "PInt 8" "JNum (Fin 10)" "PFloat (Fin 10)" Fin 8 10]
    percentage_change_expression [of "JStr ''8''" "PInt 8" "JNum (Fin 10)" "PFloat (Fin 10)" Fin 8 10]
    float_rounding_exact
  by (simp add: float_sub_def float_div_def)


subsection \<open>What the calculator can raise\<close>

text \<open>
  The loop and the totals with the values of the rate dictionary in a class \<open>V\<close> and
  the exceptions of the arithmetic in a set \<open>B\<close>.
\<close>

lemma daily_loop_json_cases:
  assumes cpc: "\<And>a b. V a \<Longrightarrow> V b \<Longrightarrow>
      (\<exists>p. calculate_percentage_change_json rnd a b = Inr p) \<or>
      (\<exists>e\<in>B. calculate_percentage_change_json rnd a b = Inl e)"
    and r5: "\<And>a. V a \<Longrightarrow> \<exists>x. json_round rnd a 5 = Inr x"
  shows "(\<forall>d\<in>set ds. \<exists>r. rate_at rts c d = Inr r \<and> V r) \<Longrightarrow> list_all V rv \<Longrightarrow>
     length rv = i \<Longrightarrow>
     (\<exists>rv' dd'. daily_loop_json rnd rts c i ds rv dd = Inr (rv', dd') \<and> list_all V rv' \<and>
        length rv' = i + length ds) \<or>
     (\<exists>e\<in>B. daily_loop_json rnd rts c i ds rv dd = Inl e)"
proof (induction ds arbitrary: i rv dd)
  case Nil
  then show ?case by simp
next
  case (Cons d rest)
  from Cons.prems(1) obtain r where r: "rate_at rts c d = Inr r" "V r" by auto
  from r5 [OF r(2)] obtain x where x: "json_round rnd r 5 = Inr x" by blast
  let ?change = "if 0 < i
             then and_then (list_getitem (rv @ [r]) (int i - 1))
                    (\<lambda>prev_rate. calculate_percentage_change_json rnd prev_rate r)
             else Inr (PFloat (Fin 0))"
  have change: "(\<exists>p. ?change = Inr p) \<or> (\<exists>e\<in>B. ?change = Inl e)"
  proof (cases "0 < i")
    case True
    then have ne: "rv \<noteq> []" using Cons.prems(3) by auto
    have g: "list_getitem (rv @ [r]) (int i - 1) = Inr (last rv)"
      using list_getitem_last [OF ne, of r] Cons.prems(3) by simp
    have "V (last rv)" using Cons.prems(2) ne by (simp add: list_all_iff)
    from cpc [OF this r(2)] show ?thesis using True g by simp
  next
    case False
    then show ?thesis by simp
  qed
  have step: "daily_loop_json rnd rts c i (d # rest) rv dd =
      and_then ?change (\<lambda>p.
        daily_loop_json rnd rts c (i + 1) rest (rv @ [r])
          (dd @ [\<lparr>date = d, rate = x, pct_change = pct_field_num rnd p\<rparr>]))"
    using r(1) x by (simp add: Let_def)
  from change show ?case
  proof
    assume "\<exists>p. ?change = Inr p"
    then obtain p where p: "?change = Inr p" by blast
    have ih: "(\<exists>rv' dd'. daily_loop_json rnd rts c (i + 1) rest (rv @ [r])
          (dd @ [\<lparr>date = d, rate = x, pct_change = pct_field_num rnd p\<rparr>]) = Inr (rv', dd') \<and>
          list_all V rv' \<and> length rv' = (i + 1) + length rest) \<or>
       (\<exists>e\<in>B. daily_loop_json rnd rts c (i + 1) rest (rv @ [r])
          (dd @ [\<lparr>date = d, rate = x, pct_change = pct_field_num rnd p\<rparr>]) = Inl e)"
      using Cons.prems r(2) by (intro Cons.IH) simp_all
    show ?thesis unfolding step p using ih by simp
  next
    assume "\<exists>e\<in>B. ?change = Inl e"
    then obtain e where e: "e \<in> B" "?change = Inl e" by blast
    show ?thesis unfolding step e(2) using e(1) by simp
  qed
qed

lemma process_rates_data_json_cases:
  assumes cpc: "\<And>a b. V a \<Longrightarrow> V b \<Longrightarrow>
      (\<exists>p. calculate_percentage_change_json rnd a b = Inr p) \<or>
      (\<exists>e\<in>B. calculate_percentage_change_json rnd a b = Inl e)"
    and r5: "\<And>a. V a \<Longrightarrow> \<exists>x. json_round rnd a 5 = Inr x"
    and mean: "\<And>vs. vs \<noteq> [] \<Longrightarrow> list_all V vs \<Longrightarrow> length vs = length rts \<Longrightarrow>
      (\<exists>m. and_then (json_sum rnd vs) (\<lambda>s. num_truediv rnd s (PInt (int (length vs)))) = Inr m) \<or>
      (\<exists>e\<in>B. and_then (json_sum rnd vs) (\<lambda>s. num_truediv rnd s (PInt (int (length vs)))) = Inl e)"
    and rd: "success rd = Some True" "rates rd = Some rts" "rts \<noteq> []"
    and rates: "\<forall>d\<in>fst ` set rts. \<exists>r. rate_at rts c d = Inr r \<and> V r"
  shows "(\<exists>t days. process_rates_data_json rnd rd c b = Inr (StatsOutput t days)) \<or>
     (\<exists>e\<in>B. process_rates_data_json rnd rd c b = Inl e)"
proof -
  let ?loop = "daily_loop_json rnd rts c 0 (sort (map fst rts)) [] []"
  have unfold: "process_rates_data_json rnd rd c b =
     and_then ?loop
            (\<lambda>(rate_values, daily_data).
          and_then (if rate_values \<noteq> [] then list_getitem rate_values 0 else Inr (JInt 0))
            (\<lambda>start_r.
          and_then (if rate_values \<noteq> [] then list_getitem rate_values (- 1) else Inr (JInt 0))
            (\<lambda>end_r.
          and_then (calculate_percentage_change_json rnd start_r end_r) (\<lambda>change.
          and_then (if rate_values \<noteq> []
                    then and_then (json_sum rnd rate_values)
                           (\<lambda>s. num_truediv rnd s (PInt (int (length rate_values))))
                    else Inr (PInt 0)) (\<lambda>mean.
          and_then (json_round rnd start_r 5) (\<lambda>start_rounded.
          and_then (json_round rnd end_r 5) (\<lambda>end_rounded.
            Inr (StatsOutput
                  \<lparr>start_rate = start_rounded,
                   end_rate = end_rounded,
                   total_pct_change = pct_field_num rnd change,
                   mean_rate = num_round rnd mean 5\<rparr>
                  (if b = ''day'' then Some daily_data else None)))))))))"
    using rd by (simp add: process_rates_data_json_def Let_def del: sort_key_simps)
  have "\<forall>d\<in>set (sort (map fst rts)). \<exists>r. rate_at rts c d = Inr r \<and> V r"
    using rates by simp
  from daily_loop_json_cases [where V = V and B = B and rnd = rnd, OF cpc r5 this, of "[]" 0 "[]"]
  have "(\<exists>rv dd. ?loop = Inr (rv, dd) \<and> list_all V rv \<and> length rv = length rts) \<or>
     (\<exists>e\<in>B. ?loop = Inl e)"
    by simp
  then show ?thesis
  proof
    assume "\<exists>e\<in>B. ?loop = Inl e"
    then show ?thesis unfolding unfold by auto
  next
    assume "\<exists>rv dd. ?loop = Inr (rv, dd) \<and> list_all V rv \<and> length rv = length rts"
    then obtain rv dd where l: "?loop = Inr (rv, dd)" "list_all V rv" "length rv = length rts"
      by blast
    have ne: "rv \<noteq> []" using l(3) rd(3) by auto
    have vh: "V (hd rv)" and vl: "V (last rv)" using l(2) ne by (simp_all add: list_all_iff)
    from r5 [OF vh] obtain sr where sr: "json_round rnd (hd rv) 5 = Inr sr" by blast
    from r5 [OF vl] obtain er where er: "json_round rnd (last rv) 5 = Inr er" by blast
    note m = mean [OF ne l(2) l(3)]
    note t = cpc [OF vh vl]
    from t show ?thesis
    proof
      assume "\<exists>e\<in>B. calculate_percentage_change_json rnd (hd rv) (last rv) = Inl e"
      then show ?thesis unfolding unfold l(1)
        using ne by (auto simp: list_getitem_first list_getitem_minus_one)
    next
      assume "\<exists>p. calculate_percentage_change_json rnd (hd rv) (last rv) = Inr p"
      then obtain p where p: "calculate_percentage_change_json rnd (hd rv) (last rv) = Inr p"
        by blast
      from m show ?thesis
      proof
        assume "\<exists>e\<in>B. and_then (json_sum rnd rv)
            (\<lambda>s. num_truediv rnd s (PInt (int (length rv)))) = Inl e"
        then show ?thesis unfolding unfold l(1)
          using ne p by (auto simp: list_getitem_first list_getitem_minus_one)
      next
        assume "\<exists>m. and_then (json_sum rnd rv)
            (\<lambda>s. num_truediv rnd s (PInt (int (length rv)))) = Inr m"
        then show ?thesis unfolding unfold l(1)
          using ne p sr er by (auto simp: list_getitem_first list_getitem_minus_one)
      qed
    qed
  qed
qed


text \<open>Rates that are numbers: the arithmetic raises \<open>OverflowError\<close> or nothing.\<close>

lemma to_float_cases:
  "(\<exists>f. to_float rnd x = Inr f) \<or> to_float rnd x = Inl OverflowError"
  by (cases x) (auto split: pyfloat.splits)

lemma to_float_int_nonzero:
  assumes "float_rounding rnd" and "i \<noteq> 0"
  shows "(\<exists>r. r \<noteq> 0 \<and> to_float rnd (PInt i) = Inr (Fin r)) \<or>
    to_float rnd (PInt i) = Inl OverflowError"
proof -
  have "1 \<le> \<bar>real_of_int i\<bar>" using assms(2) by linarith
  from rnd_nonzero [OF assms(1) this] show ?thesis by (auto split: pyfloat.splits)
qed

lemma num_add_cases: "(\<exists>z. num_add rnd x y = Inr z) \<or> num_add rnd x y = Inl OverflowError"
  using to_float_cases [of rnd x] to_float_cases [of rnd y]
  by (cases x; cases y) auto

lemma num_sub_cases: "(\<exists>z. num_sub rnd x y = Inr z) \<or> num_sub rnd x y = Inl OverflowError"
  using to_float_cases [of rnd x] to_float_cases [of rnd y]
  by (cases x; cases y) auto

lemma num_mul_cases: "(\<exists>z. num_mul rnd x y = Inr z) \<or> num_mul rnd x y = Inl OverflowError"
  using to_float_cases [of rnd x] to_float_cases [of rnd y]
  by (cases x; cases y) auto

lemma num_truediv_cases:
  assumes "float_rounding rnd" and "\<not> num_is_zero y"
  shows "(\<exists>z. num_truediv rnd x y = Inr z) \<or> num_truediv rnd x y = Inl OverflowError"
proof (cases y)
  case (PInt b)
  then have b: "b \<noteq> 0" using assms(2) by simp
  show ?thesis
  proof (cases x)
    case (PInt a)
    then show ?thesis using \<open>y = PInt b\<close> b by (auto split: pyfloat.splits)
  next
    case (PFloat f)
    then show ?thesis using \<open>y = PInt b\<close> to_float_int_nonzero [OF assms(1) b]
      by (auto simp: float_div_def)
  qed
next
  case (PFloat g)
  then have "g \<noteq> Fin 0" using assms(2) by simp
  then show ?thesis using PFloat to_float_cases [of rnd x]
    by (cases x) (auto simp: float_div_def)
qed

lemma cpc_json_numbers:
  assumes "float_rounding rnd" and "as_number a \<noteq> None" and "as_number b \<noteq> None"
  shows "(\<exists>p. calculate_percentage_change_json rnd a b = Inr p) \<or>
    (\<exists>e\<in>{OverflowError}. calculate_percentage_change_json rnd a b = Inl e)"
proof (cases "json_is_zero a")
  case True
  then show ?thesis by (simp add: calculate_percentage_change_json_def)
next
  case False
  from assms obtain x y where xy: "as_number a = Some x" "as_number b = Some y" by auto
  have nz: "\<not> num_is_zero x" using False xy by (simp add: json_is_zero_def)
  have eq: "calculate_percentage_change_json rnd a b =
      and_then (num_sub rnd y x) (\<lambda>d.
      and_then (num_truediv rnd d x) (\<lambda>q. num_mul rnd q (PInt 100)))"
    using False xy by (simp add: calculate_percentage_change_json_def)
  from num_sub_cases [of rnd y x] show ?thesis
  proof
    assume "num_sub rnd y x = Inl OverflowError"
    then show ?thesis by (simp add: eq)
  next
    assume "\<exists>z. num_sub rnd y x = Inr z"
    then obtain d where d: "num_sub rnd y x = Inr d" by blast
    from num_truediv_cases [OF assms(1) nz, of d] show ?thesis
    proof
      assume "num_truediv rnd d x = Inl OverflowError"
      then show ?thesis by (simp add: eq d)
    next
      assume "\<exists>z. num_truediv rnd d x = Inr z"
      then obtain q where q: "num_truediv rnd d x = Inr q" by blast
      show ?thesis using num_mul_cases [of rnd q "PInt 100"] by (simp add: eq d q)
    qed
  qed
qed

lemma json_round_number: "as_number a \<noteq> None \<Longrightarrow> \<exists>x. json_round rnd a n = Inr x"
  by (auto simp: json_round_def)

lemma sum_loop_numbers:
  "list_all (\<lambda>v. as_number v \<noteq> None) vs \<Longrightarrow>
   (\<exists>s. sum_loop rnd acc vs = Inr s) \<or> sum_loop rnd acc vs = Inl OverflowError"
proof (induction vs arbitrary: acc)
  case Nil
  then show ?case by simp
next
  case (Cons v vs)
  then obtain x where x: "as_number v = Some x" by auto
  from num_add_cases [of rnd acc x] show ?case
  proof
    assume "num_add rnd acc x = Inl OverflowError"
    then show ?thesis using x by simp
  next
    assume "\<exists>z. num_add rnd acc x = Inr z"
    then obtain z where z: "num_add rnd acc x = Inr z" by blast
    show ?thesis using x z Cons.IH [of z] Cons.prems by simp
  qed
qed

lemma mean_numbers:
  assumes "float_rounding rnd" and "vs \<noteq> []" and "list_all (\<lambda>v. as_number v \<noteq> None) vs"
  shows "(\<exists>m. and_then (json_sum rnd vs) (\<lambda>s. num_truediv rnd s (PInt (int (length vs)))) = Inr m) \<or>
      (\<exists>e\<in>{OverflowError}.
         and_then (json_sum rnd vs) (\<lambda>s. num_truediv rnd s (PInt (int (length vs)))) = Inl e)"
proof -
  have nz: "\<not> num_is_zero (PInt (int (length vs)))" using assms(2) by simp
  from sum_loop_numbers [OF assms(3), of rnd "PInt 0"] show ?thesis
  proof
    assume "sum_loop rnd (PInt 0) vs = Inl OverflowError"
    then show ?thesis by (simp add: json_sum_def)
  next
    assume "\<exists>s. sum_loop rnd (PInt 0) vs = Inr s"
    then obtain s where "sum_loop rnd (PInt 0) vs = Inr s" by blast
    then show ?thesis using num_truediv_cases [OF assms(1) nz, of s] by (simp add: json_sum_def)
  qed
qed

lemma rate_at_dict:
  assumes "map_of rts d = Some (JObj kvs)"
  shows "rate_at rts c d = Inr (case map_of kvs c of None \<Rightarrow> JInt 0 | Some v \<Rightarrow> v)"
  using assms by (simp add: rate_at_def dict_getitem_def dict_get_def)

lemma rate_at_no_dict:
  assumes "map_of rts d = Some entry" and "\<forall>kvs. entry \<noteq> JObj kvs"
  shows "rate_at rts c d = Inl AttributeError"
  using assms by (cases entry) (simp_all add: rate_at_def dict_getitem_def)

lemma numeric_rates_rate_at:
  assumes "numeric_rates rts c" and "d \<in> fst ` set rts"
  shows "\<exists>r. rate_at rts c d = Inr r \<and> as_number r \<noteq> None"
proof -
  from dict_getitem_present [OF assms(2)] obtain entry where e: "map_of rts d = Some entry"
    by blast
  then have "(d, entry) \<in> set rts" by (rule map_of_SomeD)
  with assms(1) obtain kvs where k: "entry = JObj kvs"
    "case map_of kvs c of None \<Rightarrow> True | Some v \<Rightarrow> as_number v \<noteq> None"
    by (cases entry) (auto simp: numeric_rates_def list_all_iff)
  show ?thesis using rate_at_dict [of rts d kvs c] e k by (auto split: option.splits)
qed

lemma process_rates_data_json_numbers:
  assumes "float_rounding rnd" and "success rd = Some True" and "rates rd = Some rts"
    and "rts \<noteq> []" and "numeric_rates rts c"
  shows "(\<exists>t days. process_rates_data_json rnd rd c b = Inr (StatsOutput t days)) \<or>
     process_rates_data_json rnd rd c b = Inl OverflowError"
proof -
  have "(\<exists>t days. process_rates_data_json rnd rd c b = Inr (StatsOutput t days)) \<or>
     (\<exists>e\<in>{OverflowError}. process_rates_data_json rnd rd c b = Inl e)"
  proof (rule process_rates_data_json_cases [where V = "\<lambda>v. as_number v \<noteq> None"])
    show "\<forall>d\<in>fst ` set rts. \<exists>r. rate_at rts c d = Inr r \<and> as_number r \<noteq> None"
      using numeric_rates_rate_at [OF assms(5)] by blast
  next
    fix a b assume "as_number a \<noteq> None" and "as_number b \<noteq> None"
    then show "(\<exists>p. calculate_percentage_change_json rnd a b = Inr p) \<or>
      (\<exists>e\<in>{OverflowError}. calculate_percentage_change_json rnd a b = Inl e)"
      by (rule cpc_json_numbers [OF assms(1)])
  next
    fix a assume "as_number a \<noteq> None"
    then show "\<exists>x. json_round rnd a 5 = Inr x" by (rule json_round_number)
  next
    fix vs :: "json list"
    assume "vs \<noteq> []" and "list_all (\<lambda>v. as_number v \<noteq> None) vs"
    then show "(\<exists>m. and_then (json_sum rnd vs)
          (\<lambda>s. num_truediv rnd s (PInt (int (length vs)))) = Inr m) \<or>
      (\<exists>e\<in>{OverflowError}. and_then (json_sum rnd vs)
          (\<lambda>s. num_truediv rnd s (PInt (int (length vs)))) = Inl e)"
      by (rule mean_numbers [OF assms(1)])
  qed (rule assms)+
  then show ?thesis by simp
qed


text \<open>Rates that are floats, and the \<open>int\<close> 0 of a missing rate: nothing raises.\<close>

lemma to_float_zero:
  assumes "float_rounding rnd"
  shows "to_float rnd (PInt 0) = Inr (Fin 0)"
  using rnd_examples(1) [OF assms] by simp

lemma to_float_hundred:
  assumes "float_rounding rnd"
  shows "to_float rnd (PInt 100) = Inr (Fin 100)"
  using rnd_examples(2) [OF assms] by simp

lemma to_float_zero_or_float:
  assumes "float_rounding rnd" and "x = PInt 0 \<or> (\<exists>f. x = PFloat f)"
  shows "\<exists>f. to_float rnd x = Inr f"
  using assms(2) to_float_zero [OF assms(1)] by auto

lemma num_add_zero_or_float:
  assumes "float_rounding rnd" and "x = PInt 0 \<or> (\<exists>f. x = PFloat f)"
    and "y = PInt 0 \<or> (\<exists>f. y = PFloat f)"
  shows "\<exists>z. num_add rnd x y = Inr z \<and> (z = PInt 0 \<or> (\<exists>f. z = PFloat f))"
  using assms(2,3) to_float_zero [OF assms(1)] by auto

lemma num_sub_zero_or_float:
  assumes "float_rounding rnd" and "x = PInt 0 \<or> (\<exists>f. x = PFloat f)"
    and "y = PInt 0 \<or> (\<exists>f. y = PFloat f)"
  shows "\<exists>z. num_sub rnd x y = Inr z \<and> (z = PInt 0 \<or> (\<exists>f. z = PFloat f))"
  using assms(2,3) to_float_zero [OF assms(1)] by auto

lemma num_truediv_by_float:
  assumes "float_rounding rnd" and "x = PInt 0 \<or> (\<exists>f. x = PFloat f)" and "g \<noteq> Fin 0"
  shows "\<exists>f. num_truediv rnd x (PFloat g) = Inr (PFloat f)"
  using assms(2,3) to_float_zero [OF assms(1)] by (auto simp: float_div_def)

lemma num_mul_hundred:
  assumes "float_rounding rnd"
  shows "\<exists>f. num_mul rnd (PFloat q) (PInt 100) = Inr (PFloat f)"
  using to_float_hundred [OF assms] by simp

lemma cpc_json_zero_or_float:
  assumes "float_rounding rnd" and "a = JInt 0 \<or> (\<exists>f. a = JNum f)"
    and "b = JInt 0 \<or> (\<exists>f. b = JNum f)"
  shows "\<exists>p. calculate_percentage_change_json rnd a b = Inr p"
proof (cases "json_is_zero a")
  case True
  then show ?thesis by (simp add: calculate_percentage_change_json_def)
next
  case False
  with assms(2) obtain g where a: "a = JNum g" and g: "g \<noteq> Fin 0"
    by (auto simp: json_is_zero_def)
  from assms(3) obtain y where y: "as_number b = Some y" "y = PInt 0 \<or> (\<exists>f. y = PFloat f)"
    by auto
  have eq: "calculate_percentage_change_json rnd a b =
      and_then (num_sub rnd y (PFloat g)) (\<lambda>d.
      and_then (num_truediv rnd d (PFloat g)) (\<lambda>q. num_mul rnd q (PInt 100)))"
    using False a y(1) by (simp add: calculate_percentage_change_json_def)
  from num_sub_zero_or_float [OF assms(1) y(2), of "PFloat g"]
  obtain d where d: "num_sub rnd y (PFloat g) = Inr d" "d = PInt 0 \<or> (\<exists>f. d = PFloat f)"
    by auto
  from num_truediv_by_float [OF assms(1) d(2) g]
  obtain q where q: "num_truediv rnd d (PFloat g) = Inr (PFloat q)" by blast
  from num_mul_hundred [OF assms(1), of q]
  obtain f where f: "num_mul rnd (PFloat q) (PInt 100) = Inr (PFloat f)" by blast
  have "calculate_percentage_change_json rnd a b = Inr (PFloat f)"
    by (simp only: eq d(1) q f and_then_Inr)
  then show ?thesis by blast
qed

lemma sum_loop_zero_or_float:
  assumes "float_rounding rnd"
  shows "list_all (\<lambda>v. v = JInt 0 \<or> (\<exists>f. v = JNum f)) vs \<Longrightarrow>
    acc = PInt 0 \<or> (\<exists>f. acc = PFloat f) \<Longrightarrow>
    \<exists>s. sum_loop rnd acc vs = Inr s \<and> (s = PInt 0 \<or> (\<exists>f. s = PFloat f))"
proof (induction vs arbitrary: acc)
  case Nil
  then show ?case by simp
next
  case (Cons v vs)
  then obtain x where x: "as_number v = Some x" "x = PInt 0 \<or> (\<exists>f. x = PFloat f)" by auto
  from num_add_zero_or_float [OF assms Cons.prems(2) x(2)]
  obtain z where z: "num_add rnd acc x = Inr z" "z = PInt 0 \<or> (\<exists>f. z = PFloat f)" by blast
  have "list_all (\<lambda>v. v = JInt 0 \<or> (\<exists>f. v = JNum f)) vs" using Cons.prems(1) by simp
  from Cons.IH [OF this z(2)] show ?case using x(1) z(1) by simp
qed

lemma pow_le: "(2::real) ^ 63 \<le> 2 ^ 1023"
  by (rule power_increasing) simp_all

lemma nat_bound:
  assumes "n < 2 ^ 63"
  shows "real n \<le> 2 ^ 63"
proof -
  have "real n < real (2 ^ 63)" using assms by (simp only: of_nat_less_iff)
  then show ?thesis by (simp only: of_nat_power of_nat_numeral less_imp_le)
qed

lemma length_magnitude:
  assumes "n < 2 ^ 63"
  shows "\<bar>real_of_int (int n)\<bar> \<le> 2 ^ 1023"
  using order_trans [OF nat_bound [OF assms] pow_le]
  by (simp only: of_int_of_nat_eq abs_of_nat)

lemma length_magnitude_one:
  assumes "0 < n"
  shows "1 \<le> \<bar>real_of_int (int n)\<bar>"
  using assms by simp

lemma num_truediv_by_length:
  assumes "float_rounding rnd" and "s = PInt 0 \<or> (\<exists>f. s = PFloat f)"
    and "0 < n" and "n < 2 ^ 63"
  shows "\<exists>m. num_truediv rnd s (PInt (int n)) = Inr m"
proof -
  from rnd_finite [OF assms(1) length_magnitude [OF assms(4)]]
  obtain r where r: "rnd (real_of_int (int n)) = Fin r"
    by blast
  from rnd_nonzero [OF assms(1) length_magnitude_one [OF assms(3)]]
  have nz: "r \<noteq> 0" using r by simp
  from assms(2) show ?thesis
  proof
    assume "s = PInt 0"
    then show ?thesis using assms(3) rnd_examples(1) [OF assms(1)] by simp
  next
    assume "\<exists>f. s = PFloat f"
    then show ?thesis using r nz by (auto simp: float_div_def)
  qed
qed

lemma mean_zero_or_float:
  assumes "float_rounding rnd" and "vs \<noteq> []" and "length vs < 2 ^ 63"
    and "list_all (\<lambda>v. v = JInt 0 \<or> (\<exists>f. v = JNum f)) vs"
  shows "\<exists>m. and_then (json_sum rnd vs) (\<lambda>s. num_truediv rnd s (PInt (int (length vs)))) = Inr m"
proof -
  from sum_loop_zero_or_float [OF assms(1) assms(4), of "PInt 0"]
  obtain s where s: "sum_loop rnd (PInt 0) vs = Inr s" "s = PInt 0 \<or> (\<exists>f. s = PFloat f)"
    by auto
  have "0 < length vs" using assms(2) by simp
  from num_truediv_by_length [OF assms(1) s(2) this assms(3)]
  show ?thesis using s(1) by (simp add: json_sum_def)
qed

lemma float_rates_rate_at:
  assumes "float_rates rts c" and "d \<in> fst ` set rts"
  shows "\<exists>r. rate_at rts c d = Inr r \<and> (r = JInt 0 \<or> (\<exists>f. r = JNum f))"
proof -
  from dict_getitem_present [OF assms(2)] obtain entry where e: "map_of rts d = Some entry"
    by blast
  then have "(d, entry) \<in> set rts" by (rule map_of_SomeD)
  with assms(1) obtain kvs where k: "entry = JObj kvs"
    "case map_of kvs c of None \<Rightarrow> True | Some v \<Rightarrow> (case v of JNum f \<Rightarrow> True | _ \<Rightarrow> False)"
    by (cases entry) (auto simp: float_rates_def list_all_iff)
  show ?thesis using rate_at_dict [of rts d kvs c] e k
    by (auto split: option.splits json.splits)
qed

lemma process_rates_data_json_floats:
  assumes "float_rounding rnd" and "success rd = Some True" and "rates rd = Some rts"
    and "rts \<noteq> []" and "float_rates rts c" and "length rts < 2 ^ 63"
  shows "\<exists>t days. process_rates_data_json rnd rd c b = Inr (StatsOutput t days)"
proof -
  have "(\<exists>t days. process_rates_data_json rnd rd c b = Inr (StatsOutput t days)) \<or>
     (\<exists>e\<in>{}. process_rates_data_json rnd rd c b = Inl e)"
  proof (rule process_rates_data_json_cases [where V = "\<lambda>v. v = JInt 0 \<or> (\<exists>f. v = JNum f)"])
    show "\<forall>d\<in>fst ` set rts. \<exists>r. rate_at rts c d = Inr r \<and> (r = JInt 0 \<or> (\<exists>f. r = JNum f))"
      using float_rates_rate_at [OF assms(5)] by blast
  next
    fix a b :: json
    assume "a = JInt 0 \<or> (\<exists>f. a = JNum f)" and "b = JInt 0 \<or> (\<exists>f. b = JNum f)"
    then show "(\<exists>p. calculate_percentage_change_json rnd a b = Inr p) \<or>
      (\<exists>e\<in>{}. calculate_percentage_change_json rnd a b = Inl e)"
      using cpc_json_zero_or_float [OF assms(1), of a b] by blast
  next
    fix a :: json
    assume "a = JInt 0 \<or> (\<exists>f. a = JNum f)"
    then have "as_number a \<noteq> None" by auto
    then show "\<exists>x. json_round rnd a 5 = Inr x" by (rule json_round_number)
  next
    fix vs :: "json list"
    assume "vs \<noteq> []" and "list_all (\<lambda>v. v = JInt 0 \<or> (\<exists>f. v = JNum f)) vs"
      and "length vs = length rts"
    then show "(\<exists>m. and_then (json_sum rnd vs)
          (\<lambda>s. num_truediv rnd s (PInt (int (length vs)))) = Inr m) \<or>
      (\<exists>e\<in>{}. and_then (json_sum rnd vs)
          (\<lambda>s. num_truediv rnd s (PInt (int (length vs)))) = Inl e)"
      using mean_zero_or_float [OF assms(1), of vs] assms(6) by simp
  qed (rule assms)+
  then show ?thesis by simp
qed

lemma daily_loop_json_length:
  "daily_loop_json rnd rts c i ds rv dd = Inr (rv', dd') \<Longrightarrow>
   length rv' = length rv + length ds"
proof (induction ds arbitrary: i rv dd)
  case Nil
  then show ?case by simp
next
  case (Cons d rest)
  from Cons.prems obtain r p x where
    "daily_loop_json rnd rts c (i + 1) rest (rv @ [r])
       (dd @ [\<lparr>date = d, rate = x, pct_change = pct_field_num rnd p\<rparr>]) = Inr (rv', dd')"
    apply (simp only: daily_loop_json.simps Let_def)
    apply (elim and_then_InrE)
    apply blast
    done
  from Cons.IH [OF this] show ?case by simp
qed


text \<open>
  A single day whose rate is an \<open>int\<close> too large for a float: the division of line
  225 raises \<open>OverflowError\<close>.
\<close>

lemma process_rates_data_json_overflow:
  assumes "float_rounding rnd" and "rnd (of_int n) = PInf"
  shows "process_rates_data_json rnd
     \<lparr>success = Some True, historical = Some True, base = Some (JStr ''USD''),
      rates = Some [(''2025-07-01'', JObj [(''EUR'', JInt n)])], error = None\<rparr>
     ''EUR'' ''day'' = Inl OverflowError"
proof -
  have n: "n \<noteq> 0" using assms(2) rnd_examples(1) [OF assms(1)] by auto
  have change: "calculate_percentage_change_json rnd (JInt n) (JInt n) = Inr (PFloat (Fin 0))"
    using n rnd_examples(1,2) [OF assms(1)]
    by (simp add: calculate_percentage_change_json_def json_is_zero_def)
  show ?thesis
    using n assms(2) change
    by (simp add: process_rates_data_json_def rate_at_def dict_getitem_def dict_get_def
        json_round_def list_getitem_def json_sum_def)
qed


text \<open>
  \<open>get_rates\<close> passes the entries of the fallback file on as they are (line 166): a
  day whose entry is \<open>null\<close>, and a rate that is a string.
\<close>

lemma unchecked_world_get_rates:
  "get_rates example_service unchecked_world ''2025-07-01'' ''2025-07-02'' ''USD'' ''EUR'' =
    Inr \<lparr>success = Some True, historical = Some True, base = Some (JStr ''USD''),
         rates = Some [(''2025-07-01'', JNull),
                       (''2025-07-02'', JObj [(''EUR'', JStr ''0.91'')])],
         error = None\<rparr>"
proof -
  have fails: "\<forall>url params timeout. call_fails (requests_get unchecked_world url params timeout)"
    by (simp add: unchecked_world_def call_fails_def)
  have "load_fallback_data_try example_service unchecked_world ''2025-07-01'' ''2025-07-02'' =
    Inr \<lparr>success = Some True, historical = Some True, base = Some (JStr ''USD''),
         rates = Some [(''2025-07-01'', JNull),
                       (''2025-07-02'', JObj [(''EUR'', JStr ''0.91'')])],
         error = None\<rparr>"
    by (simp add: load_fallback_data_try_def unchecked_world_def unchecked_dataset_def
        dict_getitem_def dict_get_def strptime_examples dt_le_def)
  then show ?thesis
    using get_rates_of_failed [OF fails, of example_service "''2025-07-01''" "''2025-07-02''"
        "''USD''" "''EUR''"]
    by (simp add: load_fallback_data_def)
qed




subsection \<open>The two embeddings of the calculator\<close>

text \<open>
  On floats and without rounding, the percentage change of this section is the one of
  the typed embedding.
\<close>

lemma round_float_exact: "round_float Fin x = x"
  by (cases x) simp_all

lemma calculate_percentage_change_json_exact:
  "calculate_percentage_change_json Fin (JNum x) (JNum y) =
     and_then (calculate_percentage_change x y) (\<lambda>p. Inr (PFloat p))"
  by (cases "float_div (float_sub y x) x")
    (simp_all add: calculate_percentage_change_json_def calculate_percentage_change_def
      json_is_zero_def round_float_exact)

end
